theory Spec2Isabelle
  imports
    Complex_Main
    "HOL-Library.AList"
    "HOL-Library.Sublist"
    "HOL-Library.Char_ord"
    "HOL-Library.List_Lexorder"
    "HOL-Library.Log_Nat"
begin

section \<open>The GEX engine of the worker (calculateGEX and its callers)\<close>

text \<open>
  The model follows the worker's second, repaired version of \<^verbatim>\<open>calculateGEX\<close>
  (the one with \<^verbatim>\<open>cleanIV\<close>, the crossing list and the range-limited walls),
  its \<^verbatim>\<open>storeIVHistory\<close> and its \<^verbatim>\<open>/api/gex\<close> route.

  JavaScript numbers are modelled as reals, with no NaN and no infinities (the
  accumulators that start at \<^verbatim>\<open>-Infinity\<close> are options, with \<open>None\<close> for
  \<^verbatim>\<open>-Infinity\<close>).  Sums and products of exposures are exact; the band around
  the spot, the interpolated flip price and its distance to the spot, where the last bit
  of a double decides the result, are rounded as doubles.  A field that is \<^verbatim>\<open>null\<close> or
  \<^verbatim>\<open>undefined\<close> is \<open>None\<close>.  Open interest and traded volume are counts, so
  they are natural numbers.  An object is the list of its entries in the order
  \<^verbatim>\<open>Object.entries\<close> yields them, and a strike key is the number
  \<^verbatim>\<open>parseFloat\<close> reads from it.
\<close>

subsection \<open>Data\<close>

record contract =
  gamma :: "real option"
  openInterest :: "nat option"
  totalVolume :: "nat option"
  volatility :: "real option"

text \<open>The value stored under a strike key: one contract, or an array of contracts.\<close>

datatype contracts = Single contract | Many "contract list"

type_synonym strikesObj = "(real \<times> contracts) list"

type_synonym optionMap = "(string \<times> strikesObj) list"

record chainData =
  callExpDateMap :: "optionMap option"
  putExpDateMap :: "optionMap option"

text \<open>The accumulator kept per strike in \<^verbatim>\<open>byStrike\<close>.\<close>

record accum =
  callGex :: real
  putGex :: real
  callOI :: nat
  putOI :: nat
  callVol :: nat
  putVol :: nat
  callIV :: "real option"
  putIV :: "real option"

text \<open>An element of \<^verbatim>\<open>strikeData\<close>: the accumulator's fields and the derived ones.\<close>

record strikeRow = accum +
  strike :: real
  netGex :: real
  totalOI :: nat
  totalVol :: nat
  volOIRatio :: real

record profile =
  strikes :: "strikeRow list"
  aggregateGex :: "real list"
  gammaFlip :: "real option"
  callWall :: "real option"
  putWall :: "real option"
  atmIV :: "real option"
  callWallIV :: "real option"
  putWallIV :: "real option"
  expirationDates :: "string list"

text \<open>Reading a property of \<^verbatim>\<open>undefined\<close> throws a TypeError.\<close>

datatype error = TypeError

type_synonym byStrikeMap = "(real \<times> accum) list"

subsection \<open>Double-precision rounding\<close>

text \<open>
  \<open>fl x\<close> is the double nearest to \<open>x\<close>, the one with the even significand on a
  tie: 53 significant bits, with an unbounded exponent range, so overflow and subnormal
  numbers are not modelled.  \<open>expo x\<close> is the exponent \<open>e\<close> of a nonzero \<open>x\<close>,
  that is \<open>2 ^ e \<le> \<bar>x\<bar> < 2 ^ (e + 1)\<close>.
\<close>

definition expo :: "real \<Rightarrow> int" where
  "expo x = (if 1 \<le> \<bar>x\<bar> then int (floorlog 2 (nat \<lfloor>\<bar>x\<bar>\<rfloor>)) - 1
             else - int (ceillog2 (nat \<lceil>1 / \<bar>x\<bar>\<rceil>)))"

definition roundEven :: "real \<Rightarrow> int" where
  "roundEven y =
     (let f = \<lfloor>y\<rfloor>
      in if y - of_int f < 1 / 2 then f
         else if 1 / 2 < y - of_int f then f + 1
         else if even f then f else f + 1)"

definition fl :: "real \<Rightarrow> real" where
  "fl x = (if x = 0 then 0
           else sgn x * (2 powi (expo x - 52))
                  * of_int (roundEven (\<bar>x\<bar> / 2 powi (expo x - 52))))"

subsection \<open>cleanIV\<close>

text \<open>
  \<^verbatim>\<open>if (v == null || isNaN(v) || v < 0 || v > 500) return null; return v;\<close>
\<close>

definition cleanIV :: "real option \<Rightarrow> real option" where
  "cleanIV v = (case v of
      None \<Rightarrow> None
    | Some x \<Rightarrow> if x < 0 \<or> x > 500 then None else Some x)"


subsection \<open>processMap: the chain normaliser\<close>

definition emptyAccum :: accum where
  "emptyAccum = \<lparr>callGex = 0, putGex = 0, callOI = 0, putOI = 0,
      callVol = 0, putVol = 0, callIV = None, putIV = None\<rparr>"

text \<open>\<^verbatim>\<open>byStrike[strike]\<close>, a fresh accumulator when the key is new.\<close>

definition lookupAccum :: "byStrikeMap \<Rightarrow> real \<Rightarrow> accum" where
  "lookupAccum byStrike k = (case map_of byStrike k of None \<Rightarrow> emptyAccum | Some d \<Rightarrow> d)"

text \<open>\<^verbatim>\<open>Array.isArray(contracts) ? contracts[0] : contracts\<close>, then a field is read.\<close>

fun firstContract :: "contracts \<Rightarrow> error + contract" where
  "firstContract (Single c) = Inr c"
| "firstContract (Many []) = Inl TypeError"
| "firstContract (Many (c # cs)) = Inr c"

definition legGex :: "real \<Rightarrow> contract \<Rightarrow> real" where
  "legGex spotPrice c =
     (case gamma c of None \<Rightarrow> 0 | Some g \<Rightarrow> g)
       * real (case openInterest c of None \<Rightarrow> 0 | Some n \<Rightarrow> n)
       * 100 * spotPrice * spotPrice * 0.01"

definition addLeg :: "real \<Rightarrow> bool \<Rightarrow> real \<Rightarrow> contract \<Rightarrow> byStrikeMap \<Rightarrow> byStrikeMap" where
  "addLeg spotPrice isCall k c byStrike =
     (let oi = (case openInterest c of None \<Rightarrow> 0 | Some n \<Rightarrow> n);
          vol = (case totalVolume c of None \<Rightarrow> 0 | Some n \<Rightarrow> n);
          iv = cleanIV (volatility c);
          gex = legGex spotPrice c;
          d = lookupAccum byStrike k;
          d' = (if isCall
                then d\<lparr>callGex := callGex d + gex, callOI := callOI d + oi,
                       callVol := callVol d + vol,
                       callIV := (case iv of None \<Rightarrow> callIV d | Some v \<Rightarrow> Some v)\<rparr>
                else d\<lparr>putGex := putGex d + gex, putOI := putOI d + oi,
                       putVol := putVol d + vol,
                       putIV := (case iv of None \<Rightarrow> putIV d | Some v \<Rightarrow> Some v)\<rparr>)
      in AList.update k d' byStrike)"

fun processStrikes ::
  "real \<Rightarrow> bool \<Rightarrow> strikesObj \<Rightarrow> byStrikeMap \<Rightarrow> error + byStrikeMap" where
  "processStrikes spotPrice isCall [] byStrike = Inr byStrike"
| "processStrikes spotPrice isCall ((k, cs) # rest) byStrike =
     (case firstContract cs of
        Inl e \<Rightarrow> Inl e
      | Inr c \<Rightarrow> processStrikes spotPrice isCall rest (addLeg spotPrice isCall k c byStrike))"

text \<open>\<^verbatim>\<open>expDateStr.split(':')[0]\<close>\<close>

definition expDateOf :: "string \<Rightarrow> string" where
  "expDateOf expDateStr = takeWhile (\<lambda>ch. ch \<noteq> CHR '':'') expDateStr"

fun processEntries ::
  "real \<Rightarrow> bool \<Rightarrow> optionMap \<Rightarrow> byStrikeMap \<times> string list \<Rightarrow>
   error + (byStrikeMap \<times> string list)" where
  "processEntries spotPrice isCall [] st = Inr st"
| "processEntries spotPrice isCall ((expDateStr, strikesObj) # rest) (byStrike, dates) =
     (let expDate = expDateOf expDateStr;
          dates' = (if expDate \<in> set dates then dates else dates @ [expDate])
      in case processStrikes spotPrice isCall strikesObj byStrike of
           Inl e \<Rightarrow> Inl e
         | Inr byStrike' \<Rightarrow> processEntries spotPrice isCall rest (byStrike', dates'))"

definition processMap ::
  "real \<Rightarrow> optionMap option \<Rightarrow> bool \<Rightarrow> byStrikeMap \<times> string list \<Rightarrow>
   error + (byStrikeMap \<times> string list)" where
  "processMap spotPrice optMap isCall st =
     (case optMap of None \<Rightarrow> Inr st | Some m \<Rightarrow> processEntries spotPrice isCall m st)"

subsection \<open>Strike rows and the cumulative curve\<close>

definition mkRow :: "byStrikeMap \<Rightarrow> real \<Rightarrow> strikeRow" where
  "mkRow byStrike k =
     (let d = lookupAccum byStrike k;
          net = callGex d + putGex d;
          tOI = callOI d + putOI d;
          tVol = callVol d + putVol d
      in \<lparr>callGex = callGex d, putGex = putGex d, callOI = callOI d, putOI = putOI d,
          callVol = callVol d, putVol = putVol d, callIV = callIV d, putIV = putIV d,
          strike = k, netGex = net, totalOI = tOI, totalVol = tVol,
          volOIRatio = (if tOI > 0 then min (real tVol / real tOI) 10 else 0)\<rparr>)"

text \<open>\<^verbatim>\<open>let running = 0; strikeData.map(s => { running += s.netGex; return running; })\<close>\<close>

fun runningSums :: "real \<Rightarrow> real list \<Rightarrow> real list" where
  "runningSums running [] = []"
| "runningSums running (x # xs) = (running + x) # runningSums (running + x) xs"

subsection \<open>Gamma flip\<close>

definition straddles :: "real \<Rightarrow> real \<Rightarrow> bool" where
  "straddles a b = ((a < 0 \<and> b \<ge> 0) \<or> (a \<ge> 0 \<and> b < 0))"

text \<open>
  \<^verbatim>\<open>ratio = Math.abs(a) / (Math.abs(a) + Math.abs(b))\<close> and
  \<^verbatim>\<open>flipPrice = strikes[i - 1] + ratio * (strikes[i] - strikes[i - 1])\<close>, each
  operation rounded to a double.
\<close>

definition flipPrice :: "real list \<Rightarrow> real list \<Rightarrow> nat \<Rightarrow> real" where
  "flipPrice ks agg i =
     (let a = agg ! (i - 1); b = agg ! i;
          ratio = fl (\<bar>a\<bar> / fl (\<bar>a\<bar> + \<bar>b\<bar>))
      in fl (ks ! (i - 1) + fl (ratio * fl (ks ! i - ks ! (i - 1)))))"

text \<open>The same interpolation in exact arithmetic, which the machine's value approximates.\<close>

definition exactFlipPrice :: "real list \<Rightarrow> real list \<Rightarrow> nat \<Rightarrow> real" where
  "exactFlipPrice ks agg i =
     (let a = agg ! (i - 1); b = agg ! i
      in ks ! (i - 1) + \<bar>a\<bar> / (\<bar>a\<bar> + \<bar>b\<bar>) * (ks ! i - ks ! (i - 1)))"

text \<open>The loop \<^verbatim>\<open>for (let i = 1; i < strikes.length; i++)\<close> that fills \<^verbatim>\<open>crossings\<close>.\<close>

definition crossingIdx :: "real list \<Rightarrow> real list \<Rightarrow> nat list" where
  "crossingIdx ks agg = filter (\<lambda>i. straddles (agg ! (i - 1)) (agg ! i)) [1..<length ks]"

definition crossings :: "real list \<Rightarrow> real list \<Rightarrow> real list" where
  "crossings ks agg = map (flipPrice ks agg) (crossingIdx ks agg)"

text \<open>
  The callback of \<^verbatim>\<open>reduce\<close>:
  \<^verbatim>\<open>Math.abs(curr - spotPrice) < Math.abs(prev - spotPrice) ? curr : prev\<close>, the two
  differences rounded to doubles.
\<close>

definition nearer :: "real \<Rightarrow> real \<Rightarrow> real \<Rightarrow> real" where
  "nearer spotPrice prev cur =
     (if \<bar>fl (cur - spotPrice)\<bar> < \<bar>fl (prev - spotPrice)\<bar> then cur else prev)"

text \<open>
  \<^verbatim>\<open>crossings.reduce(...)\<close> without an initial value when the spot is truthy,
  \<^verbatim>\<open>crossings[0]\<close> otherwise, \<^verbatim>\<open>null\<close> when there is no crossing.
\<close>

definition pickFlip :: "real \<Rightarrow> real list \<Rightarrow> real option" where
  "pickFlip spotPrice cs =
     (case cs of
        [] \<Rightarrow> None
      | c # rest \<Rightarrow> if spotPrice \<noteq> 0 then Some (foldl (nearer spotPrice) c rest) else Some c)"

text \<open>
  \<^verbatim>\<open>parseFloat(x.toFixed(2))\<close>: the decimal with two digits that
  \<^verbatim>\<open>toFixed\<close> prints for the number \<open>x\<close>, which is the multiple of 1/100 nearest
  to \<open>x\<close>, the larger magnitude on a tie.
\<close>

definition toFixed2 :: "real \<Rightarrow> real" where
  "toFixed2 x = sgn x * of_int \<lfloor>\<bar>x\<bar> * 100 + 1 / 2\<rfloor> / 100"

text \<open>\<^verbatim>\<open>if (gammaFlip) gammaFlip = parseFloat(gammaFlip.toFixed(2))\<close>\<close>

definition roundFlip :: "real option \<Rightarrow> real option" where
  "roundFlip g = (case g of
      None \<Rightarrow> None
    | Some x \<Rightarrow> if x \<noteq> 0 then Some (toFixed2 x) else Some x)"

subsection \<open>Call wall and put wall\<close>

text \<open>
  \<^verbatim>\<open>rangeMin = spotPrice * 0.60\<close> and \<^verbatim>\<open>rangeMax = spotPrice * 1.40\<close>:
  the doubles of the two literals, and the rounded products.
\<close>

definition rangeMin :: "real \<Rightarrow> real" where
  "rangeMin spotPrice = fl (spotPrice * fl 0.60)"

definition rangeMax :: "real \<Rightarrow> real" where
  "rangeMax spotPrice = fl (spotPrice * fl 1.40)"

definition inRange :: "real \<Rightarrow> strikeRow list \<Rightarrow> strikeRow list" where
  "inRange spotPrice rows =
     filter (\<lambda>s. strike s \<ge> rangeMin spotPrice \<and> strike s \<le> rangeMax spotPrice) rows"

text \<open>\<^verbatim>\<open>x > m\<close> for an accumulator \<open>m\<close> that starts at \<^verbatim>\<open>-Infinity\<close>.\<close>

definition above :: "real \<Rightarrow> real option \<Rightarrow> bool" where
  "above x m = (case m of None \<Rightarrow> True | Some y \<Rightarrow> x > y)"

text \<open>
  The loop state is (callWall, maxCallGex, putWall, maxPutGexAbs); one step is the body
  of \<^verbatim>\<open>for (const s of inRange)\<close>.
\<close>

type_synonym wallState = "real option \<times> real option \<times> real option \<times> real option"

definition wallStep :: "wallState \<Rightarrow> strikeRow \<Rightarrow> wallState" where
  "wallStep st s =
     (case st of (cw, maxCallGex, pw, maxPutGexAbs) \<Rightarrow>
        (if above (callGex s) maxCallGex then Some (strike s) else cw,
         if above (callGex s) maxCallGex then Some (callGex s) else maxCallGex,
         if above \<bar>putGex s\<bar> maxPutGexAbs then Some (strike s) else pw,
         if above \<bar>putGex s\<bar> maxPutGexAbs then Some \<bar>putGex s\<bar> else maxPutGexAbs))"

definition walls :: "real \<Rightarrow> strikeRow list \<Rightarrow> wallState" where
  "walls spotPrice rows = foldl wallStep (None, None, None, None) (inRange spotPrice rows)"

subsection \<open>ATM IV and the walls' IV\<close>

definition ivReadings :: "strikeRow \<Rightarrow> real list" where
  "ivReadings s =
     (case callIV s of None \<Rightarrow> [] | Some v \<Rightarrow> [v]) @ (case putIV s of None \<Rightarrow> [] | Some v \<Rightarrow> [v])"

text \<open>The stable sort by distance to the spot, then \<^verbatim>\<open>slice(0, 5)\<close>.\<close>

definition candidates :: "real \<Rightarrow> strikeRow list \<Rightarrow> strikeRow list" where
  "candidates spotPrice rows = take 5 (sort_key (\<lambda>s. \<bar>strike s - spotPrice\<bar>) rows)"

definition atmIVof :: "real \<Rightarrow> strikeRow list \<Rightarrow> real option" where
  "atmIVof spotPrice rows =
     (if spotPrice \<noteq> 0 \<and> rows \<noteq> []
      then (let ivValues = concat (map ivReadings (candidates spotPrice rows))
            in if length ivValues > 0
               then Some (foldl (+) 0 ivValues / real (length ivValues))
               else None)
      else None)"

text \<open>
  \<^verbatim>\<open>if (callWall) { const cws = strikeData.find(...); if (cws) callWallIV = cws.callIV ?? cws.putIV; }\<close>
\<close>

definition callWallIVof :: "real option \<Rightarrow> strikeRow list \<Rightarrow> real option" where
  "callWallIVof w rows =
     (case w of
        None \<Rightarrow> None
      | Some k \<Rightarrow>
          if k \<noteq> 0
          then (case find (\<lambda>s. strike s = k) rows of
                  None \<Rightarrow> None
                | Some cws \<Rightarrow> (case callIV cws of Some v \<Rightarrow> Some v | None \<Rightarrow> putIV cws))
          else None)"

definition putWallIVof :: "real option \<Rightarrow> strikeRow list \<Rightarrow> real option" where
  "putWallIVof w rows =
     (case w of
        None \<Rightarrow> None
      | Some k \<Rightarrow>
          if k \<noteq> 0
          then (case find (\<lambda>s. strike s = k) rows of
                  None \<Rightarrow> None
                | Some pws \<Rightarrow> (case putIV pws of Some v \<Rightarrow> Some v | None \<Rightarrow> callIV pws))
          else None)"

subsection \<open>calculateGEX\<close>

text \<open>Everything after the two \<^verbatim>\<open>processMap\<close> calls.\<close>

definition buildProfile :: "real \<Rightarrow> byStrikeMap \<Rightarrow> string list \<Rightarrow> profile option" where
  "buildProfile spotPrice byStrike dates =
     (let ks = sort (map fst byStrike)
      in if ks = [] then None
         else
           (let strikeData = map (mkRow byStrike) ks;
                agg = runningSums 0 (map netGex strikeData);
                flip = roundFlip (pickFlip spotPrice (crossings ks agg));
                w = walls spotPrice strikeData;
                cw = fst w;
                pw = fst (snd (snd w))
            in Some \<lparr>strikes = strikeData, aggregateGex = agg, gammaFlip = flip,
                     callWall = cw, putWall = pw,
                     atmIV = atmIVof spotPrice strikeData,
                     callWallIV = callWallIVof cw strikeData,
                     putWallIV = putWallIVof pw strikeData,
                     expirationDates = sort dates\<rparr>))"

definition normalise :: "chainData \<Rightarrow> real \<Rightarrow> error + (byStrikeMap \<times> string list)" where
  "normalise chain spotPrice =
     (case processMap spotPrice (callExpDateMap chain) True ([], []) of
        Inl e \<Rightarrow> Inl e
      | Inr st \<Rightarrow> processMap spotPrice (putExpDateMap chain) False st)"

text \<open>The result is \<open>Inl\<close> for a thrown error, \<open>Inr None\<close> for \<^verbatim>\<open>null\<close>.\<close>

definition calculateGEX :: "chainData \<Rightarrow> real \<Rightarrow> error + profile option" where
  "calculateGEX chain spotPrice =
     (case normalise chain spotPrice of
        Inl e \<Rightarrow> Inl e
      | Inr (byStrike, dates) \<Rightarrow> Inr (buildProfile spotPrice byStrike dates))"

text \<open>What a caller reads off the result: a field of the profile, when there is one.\<close>

definition observe :: "(profile \<Rightarrow> 'a) \<Rightarrow> error + profile option \<Rightarrow> 'a option" where
  "observe f r = (case r of Inl e \<Rightarrow> None | Inr None \<Rightarrow> None | Inr (Some p) \<Rightarrow> Some (f p))"

subsection \<open>Valid chains\<close>

text \<open>
  A chain is valid when it has at least one strike entry and every strike entry holds a
  contract (a contract, or an array with a first element).
\<close>

definition entriesOf :: "optionMap option \<Rightarrow> strikesObj" where
  "entriesOf optMap = (case optMap of None \<Rightarrow> [] | Some m \<Rightarrow> concat (map snd m))"

definition strikeEntries :: "chainData \<Rightarrow> strikesObj" where
  "strikeEntries chain = entriesOf (callExpDateMap chain) @ entriesOf (putExpDateMap chain)"

definition hasContract :: "contracts \<Rightarrow> bool" where
  "hasContract cs = (case firstContract cs of Inl e \<Rightarrow> False | Inr c \<Rightarrow> True)"

definition validChain :: "chainData \<Rightarrow> bool" where
  "validChain chain \<longleftrightarrow>
     strikeEntries chain \<noteq> [] \<and> list_all (\<lambda>e. hasContract (snd e)) (strikeEntries chain)"

subsection \<open>The IV reading kept for a strike\<close>

text \<open>
  The contracts read at a strike on one side, in the order the chain lists them, and the
  last of their IV readings that cleanIV keeps.
\<close>

definition legsAt :: "strikesObj \<Rightarrow> real \<Rightarrow> contract list" where
  "legsAt entries k =
     concat (map (\<lambda>e. if fst e = k
                        then (case firstContract (snd e) of Inl err \<Rightarrow> [] | Inr c \<Rightarrow> [c])
                        else []) entries)"

definition keepIV :: "real option \<Rightarrow> contract \<Rightarrow> real option" where
  "keepIV old c = (case cleanIV (volatility c) of None \<Rightarrow> old | Some v \<Rightarrow> Some v)"

definition lastKeptIV :: "strikesObj \<Rightarrow> real \<Rightarrow> real option" where
  "lastKeptIV entries k = foldl keepIV None (legsAt entries k)"


subsection \<open>storeIVHistory\<close>

text \<open>
  The key-value store maps a key to the history that its JSON text encodes; a key that
  is absent, or whose read or parse fails, gives \<open>None\<close>.  The clock readings
  (\<^verbatim>\<open>today\<close>, \<^verbatim>\<open>getETTimeString()\<close>, \<^verbatim>\<open>Date.now()\<close>) are arguments.
\<close>

record ivRecord =
  ivTime :: string
  ivTimestamp :: nat
  ivAtmIV :: "real option"
  ivCallWallIV :: "real option"
  ivPutWallIV :: "real option"

type_synonym kvStore = "string \<Rightarrow> ivRecord list option"

definition ivKey :: "string \<Rightarrow> string \<Rightarrow> string" where
  "ivKey symbol today = ''iv2:'' @ symbol @ '':'' @ today"

text \<open>\<^verbatim>\<open>history.slice(-96)\<close>\<close>

definition sliceLast96 :: "'a list \<Rightarrow> 'a list" where
  "sliceLast96 history = drop (length history - 96) history"

definition storeIVHistory ::
  "kvStore \<Rightarrow> string \<Rightarrow> string \<Rightarrow> string \<Rightarrow> nat \<Rightarrow>
   real option \<Rightarrow> real option \<Rightarrow> real option \<Rightarrow> ivRecord list \<times> kvStore" where
  "storeIVHistory kv symbol today etTime nowMs a cw pw =
     (let key = ivKey symbol today;
          history = (case kv key of None \<Rightarrow> [] | Some h \<Rightarrow> h);
          pushed = history @ [\<lparr>ivTime = etTime, ivTimestamp = nowMs, ivAtmIV = a,
                                ivCallWallIV = cw, ivPutWallIV = pw\<rparr>];
          trimmed = sliceLast96 pushed
      in (trimmed, kv(key \<mapsto> trimmed)))"

subsection \<open>The /api/gex route\<close>

text \<open>
  The collaborators' answers are given with the request: \<open>Inl\<close> is a call that throws.
  The route returns its response, the calls it made in order, and the store.
\<close>

record quote =
  lastPrice :: "real option"
  mark :: "real option"
  closePrice :: "real option"

text \<open>\<^verbatim>\<open>v || d\<close> on a number that may be missing.\<close>

definition orElse :: "real option \<Rightarrow> real \<Rightarrow> real" where
  "orElse v d = (case v of None \<Rightarrow> d | Some x \<Rightarrow> if x \<noteq> 0 then x else d)"

text \<open>\<^verbatim>\<open>q.lastPrice || q.mark || q.closePrice || 0\<close>\<close>

definition quoteLast :: "quote \<Rightarrow> real" where
  "quoteLast q = orElse (lastPrice q) (orElse (mark q) (orElse (closePrice q) 0))"

definition upperChar :: "char \<Rightarrow> char" where
  "upperChar ch =
     (if CHR ''a'' \<le> ch \<and> ch \<le> CHR ''z'' then char_of (of_char ch - (32::nat)) else ch)"

definition toUpperCase :: "string \<Rightarrow> string" where
  "toUpperCase s = map upperChar s"

datatype message =
    SymbolRequired
  | FuturesUnsupported
  | NoSpotPrice
  | GexFailed
  | Thrown error
  | Upstream string

datatype event = GetAccessToken | FetchQuote | FetchOptionChain | CalculateGEX | StoreIVHistory

record request =
  symbolParam :: "string option"

record world =
  tokenOutcome :: "string + string"
  quoteOutcome :: "string + quote"
  chainOutcome :: "string + chainData"
  kvState :: kvStore
  today :: string
  etTime :: string
  nowMs :: nat

datatype response = ErrRes message nat | JsonRes string real profile

definition gexRoute :: "request \<Rightarrow> world \<Rightarrow> response \<times> event list \<times> kvStore" where
  "gexRoute req w =
     (case map_option toUpperCase (symbolParam req) of
        None \<Rightarrow> (ErrRes SymbolRequired 400, [], kvState w)
      | Some [] \<Rightarrow> (ErrRes SymbolRequired 400, [], kvState w)
      | Some (ch # rest) \<Rightarrow>
          if ch = CHR ''/'' then (ErrRes FuturesUnsupported 400, [], kvState w)
          else
            (case tokenOutcome w of
               Inl m \<Rightarrow> (ErrRes (Upstream m) 500, [GetAccessToken], kvState w)
             | Inr token \<Rightarrow>
                 (case quoteOutcome w of
                    Inl m \<Rightarrow> (ErrRes (Upstream m) 500, [GetAccessToken, FetchQuote], kvState w)
                  | Inr q \<Rightarrow>
                      if quoteLast q = 0
                      then (ErrRes NoSpotPrice 500, [GetAccessToken, FetchQuote], kvState w)
                      else
                        (case chainOutcome w of
                           Inl m \<Rightarrow>
                             (ErrRes (Upstream m) 500,
                              [GetAccessToken, FetchQuote, FetchOptionChain], kvState w)
                         | Inr chain \<Rightarrow>
                             (case calculateGEX chain (quoteLast q) of
                                Inl e \<Rightarrow>
                                  (ErrRes (Thrown e) 500,
                                   [GetAccessToken, FetchQuote, FetchOptionChain, CalculateGEX],
                                   kvState w)
                              | Inr None \<Rightarrow>
                                  (ErrRes GexFailed 500,
                                   [GetAccessToken, FetchQuote, FetchOptionChain, CalculateGEX],
                                   kvState w)
                              | Inr (Some gex) \<Rightarrow>
                                  (JsonRes (ch # rest) (quoteLast q) gex,
                                   [GetAccessToken, FetchQuote, FetchOptionChain, CalculateGEX,
                                    StoreIVHistory],
                                   snd (storeIVHistory (kvState w) (ch # rest) (today w)
                                          (etTime w) (nowMs w)
                                          (atmIV gex) (callWallIV gex) (putWallIV gex))))))))"

subsection \<open>Concrete inputs\<close>

text \<open>
  One expiration, strikes 100 and 105: call gamma 0.05 with open interest 1000 and put
  gamma -0.04 with open interest 800 at 100; call gamma 0.03 with open interest 500 and
  put gamma -0.02 with open interest 900 at 105.
\<close>

definition leg :: "real \<Rightarrow> nat \<Rightarrow> contract" where
  "leg g oi = \<lparr>gamma = Some g, openInterest = Some oi, totalVolume = None, volatility = None\<rparr>"

definition workedChain :: chainData where
  "workedChain = \<lparr>
     callExpDateMap = Some [(''2026-02-21:7'',
        [(100, Many [leg 0.05 1000]), (105, Many [leg 0.03 500])])],
     putExpDateMap = Some [(''2026-02-21:7'',
        [(100, Many [leg (- 0.04) 800]), (105, Many [leg (- 0.02) 900])])]\<rparr>"

definition workedProfile :: profile where
  "workedProfile =
     \<lparr>strikes =
        [\<lparr>callGex = 520200, putGex = - 332928, callOI = 1000, putOI = 800,
            callVol = 0, putVol = 0, callIV = None, putIV = None,
            strike = 100, netGex = 187272, totalOI = 1800, totalVol = 0,
            volOIRatio = 0\<rparr>,
         \<lparr>callGex = 156060, putGex = - 187272, callOI = 500, putOI = 900,
            callVol = 0, putVol = 0, callIV = None, putIV = None,
            strike = 105, netGex = - 31212, totalOI = 1400, totalVol = 0,
            volOIRatio = 0\<rparr>],
      aggregateGex = [187272, 156060], gammaFlip = None,
      callWall = Some 100, putWall = Some 100, atmIV = None,
      callWallIV = None, putWallIV = None,
      expirationDates = [''2026-02-21'']\<rparr>"

text \<open>A history that is already full, and the record appended to it.\<close>

definition oldRecord :: ivRecord where
  "oldRecord = \<lparr>ivTime = ''09:30 ET'', ivTimestamp = 1, ivAtmIV = Some 20,
      ivCallWallIV = None, ivPutWallIV = None\<rparr>"

definition fullStore :: kvStore where
  "fullStore = (\<lambda>key. if key = ivKey ''SPY'' ''2026-02-20''
                        then Some (replicate 96 oldRecord) else None)"

text \<open>A chain with volumes and IV readings, at spot 10.\<close>

definition fullLeg :: "real \<Rightarrow> nat \<Rightarrow> nat \<Rightarrow> real \<Rightarrow> contract" where
  "fullLeg g oi vol iv =
     \<lparr>gamma = Some g, openInterest = Some oi, totalVolume = Some vol, volatility = Some iv\<rparr>"

definition sampleChain :: chainData where
  "sampleChain = \<lparr>
     callExpDateMap = Some [(''2026-03-20:30'',
        [(9, Many [fullLeg 0.1 1 50 30]), (10, Single (fullLeg 0.2 2 1 25)),
         (11, Many [fullLeg 0.1 3 0 600])])],
     putExpDateMap = Some [(''2026-03-20:30'',
        [(9, Many [fullLeg (- 0.5) 1 0 35]), (10, Many [fullLeg (- 0.1) 1 4 0])])]\<rparr>"

definition sampleRow9 :: strikeRow where
  "sampleRow9 = \<lparr>callGex = 10, putGex = - 50, callOI = 1, putOI = 1,
      callVol = 50, putVol = 0, callIV = Some 30, putIV = Some 35,
      strike = 9, netGex = - 40, totalOI = 2, totalVol = 50, volOIRatio = 10\<rparr>"

definition sampleRow10 :: strikeRow where
  "sampleRow10 = \<lparr>callGex = 40, putGex = - 10, callOI = 2, putOI = 1,
      callVol = 1, putVol = 4, callIV = Some 25, putIV = Some 0,
      strike = 10, netGex = 30, totalOI = 3, totalVol = 5, volOIRatio = 5 / 3\<rparr>"

definition sampleRow11 :: strikeRow where
  "sampleRow11 = \<lparr>callGex = 30, putGex = 0, callOI = 3, putOI = 0,
      callVol = 0, putVol = 0, callIV = None, putIV = None,
      strike = 11, netGex = 30, totalOI = 3, totalVol = 0, volOIRatio = 0\<rparr>"

definition sampleProfile :: profile where
  "sampleProfile =
     \<lparr>strikes = [sampleRow9, sampleRow10, sampleRow11],
      aggregateGex = [- 40, - 10, 20], gammaFlip = Some (1033 / 100),
      callWall = Some 10, putWall = Some 9, atmIV = Some (45 / 2),
      callWallIV = Some 25, putWallIV = Some 35,
      expirationDates = [''2026-03-20'']\<rparr>"

text \<open>Two call-only strikes at spot 50: the cumulative curve stays positive.\<close>

definition flatChain :: chainData where
  "flatChain = \<lparr>
     callExpDateMap = Some [(''2026-02-21:7'',
        [(50, Single (leg 0.01 10)), (55, Single (leg 0.02 10))])],
     putExpDateMap = None\<rparr>"

definition flatProfile :: profile where
  "flatProfile =
     \<lparr>strikes =
        [\<lparr>callGex = 250, putGex = 0, callOI = 10, putOI = 0, callVol = 0,
            putVol = 0, callIV = None, putIV = None, strike = 50,
            netGex = 250, totalOI = 10, totalVol = 0, volOIRatio = 0\<rparr>,
         \<lparr>callGex = 500, putGex = 0, callOI = 10, putOI = 0, callVol = 0,
            putVol = 0, callIV = None, putIV = None, strike = 55,
            netGex = 500, totalOI = 10, totalVol = 0, volOIRatio = 0\<rparr>],
      aggregateGex = [250, 750], gammaFlip = None, callWall = Some 55,
      putWall = Some 50, atmIV = None, callWallIV = None,
      putWallIV = None, expirationDates = [''2026-02-21'']\<rparr>"

text \<open>The worked chain at the spot -5, and requests whose quote is -5 or 0.\<close>

definition negSpotProfile :: profile where
  "negSpotProfile =
     \<lparr>strikes =
        [\<lparr>callGex = 1250, putGex = - 800, callOI = 1000, putOI = 800,
            callVol = 0, putVol = 0, callIV = None, putIV = None,
            strike = 100, netGex = 450, totalOI = 1800, totalVol = 0,
            volOIRatio = 0\<rparr>,
         \<lparr>callGex = 375, putGex = - 450, callOI = 500, putOI = 900,
            callVol = 0, putVol = 0, callIV = None, putIV = None,
            strike = 105, netGex = - 75, totalOI = 1400, totalVol = 0,
            volOIRatio = 0\<rparr>],
      aggregateGex = [450, 375], gammaFlip = None, callWall = None,
      putWall = None, atmIV = None, callWallIV = None, putWallIV = None,
      expirationDates = [''2026-02-21'']\<rparr>"

definition negWorld :: world where
  "negWorld = \<lparr>tokenOutcome = Inr ''token'',
     quoteOutcome = Inr \<lparr>lastPrice = Some (- 5), mark = None, closePrice = None\<rparr>,
     chainOutcome = Inr workedChain, kvState = (\<lambda>key. None),
     today = ''2026-02-20'', etTime = ''10:00 ET'', nowMs = 2\<rparr>"

definition zeroWorld :: world where
  "zeroWorld = \<lparr>tokenOutcome = Inr ''token'',
     quoteOutcome = Inr \<lparr>lastPrice = Some 0, mark = None, closePrice = None\<rparr>,
     chainOutcome = Inr workedChain, kvState = (\<lambda>key. None),
     today = ''2026-02-20'', etTime = ''10:00 ET'', nowMs = 2\<rparr>"

text \<open>Two strikes in the band at spot 100; a strike 0 at spot 0.\<close>

definition wallChain :: chainData where
  "wallChain = \<lparr>
     callExpDateMap = Some [(''2026-02-21:7'',
        [(100, Single (leg 0.001 1)), (101, Single (leg 0.0005 1))])],
     putExpDateMap = Some [(''2026-02-21:7'', [(100, Single (leg (- 0.002) 1))])]\<rparr>"

definition zeroChain :: chainData where
  "zeroChain = \<lparr>
     callExpDateMap = Some [(''2026-02-21:7'', [(0, Single (fullLeg 0.01 10 5 30))])],
     putExpDateMap = None\<rparr>"

definition wallProfile :: profile where
  "wallProfile =
     \<lparr>strikes =
        [\<lparr>callGex = 10, putGex = - 20, callOI = 1, putOI = 1, callVol = 0,
            putVol = 0, callIV = None, putIV = None, strike = 100,
            netGex = - 10, totalOI = 2, totalVol = 0, volOIRatio = 0\<rparr>,
         \<lparr>callGex = 5, putGex = 0, callOI = 1, putOI = 0, callVol = 0,
            putVol = 0, callIV = None, putIV = None, strike = 101,
            netGex = 5, totalOI = 1, totalVol = 0, volOIRatio = 0\<rparr>],
      aggregateGex = [- 10, - 5], gammaFlip = None, callWall = Some 100,
      putWall = Some 100, atmIV = None, callWallIV = None,
      putWallIV = None, expirationDates = [''2026-02-21'']\<rparr>"

definition zeroProfile :: profile where
  "zeroProfile =
     \<lparr>strikes =
        [\<lparr>callGex = 0, putGex = 0, callOI = 10, putOI = 0, callVol = 5,
            putVol = 0, callIV = Some 30, putIV = None, strike = 0,
            netGex = 0, totalOI = 10, totalVol = 5, volOIRatio = 1 / 2\<rparr>],
      aggregateGex = [0], gammaFlip = None, callWall = Some 0,
      putWall = Some 0, atmIV = None, callWallIV = None,
      putWallIV = None, expirationDates = [''2026-02-21'']\<rparr>"

text \<open>Strikes 22.125 and 22.375 at spot 10, the curve reaching 0 at the last strike.\<close>

definition edgeChain :: chainData where
  "edgeChain = \<lparr>
     callExpDateMap = Some [(''2026-02-21:7'', [(22.375, Single (leg 0.1 1))])],
     putExpDateMap = Some [(''2026-02-21:7'', [(22.125, Single (leg (- 0.1) 1))])]\<rparr>"

definition edgeProfile :: profile where
  "edgeProfile =
     \<lparr>strikes =
        [\<lparr>callGex = 0, putGex = - 10, callOI = 0, putOI = 1, callVol = 0,
            putVol = 0, callIV = None, putIV = None, strike = 22.125,
            netGex = - 10, totalOI = 1, totalVol = 0, volOIRatio = 0\<rparr>,
         \<lparr>callGex = 10, putGex = 0, callOI = 1, putOI = 0, callVol = 0,
            putVol = 0, callIV = None, putIV = None, strike = 22.375,
            netGex = 10, totalOI = 1, totalVol = 0, volOIRatio = 0\<rparr>],
      aggregateGex = [- 10, 0], gammaFlip = Some 22.38,
      callWall = None, putWall = None, atmIV = None, callWallIV = None,
      putWallIV = None, expirationDates = [''2026-02-21'']\<rparr>"



section \<open>Properties\<close>

subsection \<open>The accuracy of rounding\<close>

text \<open>
  Rounding to a double changes a number by at most one part in \<open>2 ^ 53\<close> and keeps
  its sign.
\<close>

lemma expo_lower:
  assumes "x \<noteq> 0"
  shows "2 powi (expo x) \<le> \<bar>x\<bar>"
proof (cases "1 \<le> \<bar>x\<bar>")
  case True
  define n where "n = nat \<lfloor>\<bar>x\<bar>\<rfloor>"
  from True have n: "0 < n" by (simp add: n_def)
  from floorlog_bounds [OF n, of 2] have "2 ^ (floorlog 2 n - 1) \<le> n" by simp
  then have "(2::real) ^ (floorlog 2 n - 1) \<le> real n"
    by (metis of_nat_le_iff of_nat_numeral of_nat_power)
  also have "real n \<le> \<bar>x\<bar>" using True by (simp add: n_def)
  finally have le: "(2::real) ^ (floorlog 2 n - 1) \<le> \<bar>x\<bar>" .
  from n have "floorlog 2 n > 0" by (simp add: floorlog_def)
  then have "expo x = int (floorlog 2 n - 1)"
    using True by (simp add: expo_def n_def)
  with le show ?thesis by simp
next
  case False
  define m where "m = nat \<lceil>1 / \<bar>x\<bar>\<rceil>"
  from assms have pos: "0 < \<bar>x\<bar>" by simp
  have "1 / \<bar>x\<bar> \<le> real_of_int \<lceil>1 / \<bar>x\<bar>\<rceil>" by (rule le_of_int_ceiling)
  also have "\<dots> \<le> real m" by (simp add: m_def)
  also have "real m \<le> 2 ^ ceillog2 m"
    using le_two_power_ceillog2 [of m] by (metis of_nat_le_iff of_nat_numeral of_nat_power)
  finally have "1 / \<bar>x\<bar> \<le> 2 ^ ceillog2 m" .
  with pos have "1 / 2 ^ ceillog2 m \<le> \<bar>x\<bar>"
    by (simp add: field_simps)
  moreover have "expo x = - int (ceillog2 m)" using False by (simp add: expo_def m_def)
  ultimately show ?thesis by (simp add: power_int_minus field_simps)
qed

lemma roundEven_close: "\<bar>of_int (roundEven y) - y\<bar> \<le> 1 / 2"
proof -
  have "of_int \<lfloor>y\<rfloor> \<le> y" "y < of_int \<lfloor>y\<rfloor> + 1" by linarith+
  then show ?thesis by (auto simp: roundEven_def Let_def)
qed

lemma fl_close: "\<bar>fl x - x\<bar> \<le> \<bar>x\<bar> / 2 ^ 53"
proof (cases "x = 0")
  case True
  then show ?thesis by (simp add: fl_def)
next
  case False
  define u :: real where "u = 2 powi (expo x - 52)"
  have u: "0 < u" by (simp add: u_def)
  have u52: "u * 2 ^ 52 = 2 powi (expo x)"
    by (simp add: u_def power_int_diff)
  have "fl x - x = sgn x * (u * (of_int (roundEven (\<bar>x\<bar> / u)) - \<bar>x\<bar> / u))"
  proof -
    have "x = sgn x * \<bar>x\<bar>" by (simp add: sgn_mult_abs)
    then have "x = sgn x * (u * (\<bar>x\<bar> / u))" using u by simp
    moreover have "fl x = sgn x * (u * of_int (roundEven (\<bar>x\<bar> / u)))"
      using False by (simp add: fl_def u_def)
    ultimately show ?thesis by (simp add: algebra_simps)
  qed
  then have "\<bar>fl x - x\<bar> = \<bar>sgn x\<bar> * (u * \<bar>of_int (roundEven (\<bar>x\<bar> / u)) - \<bar>x\<bar> / u\<bar>)"
    using u by (simp add: abs_mult)
  also have "\<dots> = u * \<bar>of_int (roundEven (\<bar>x\<bar> / u)) - \<bar>x\<bar> / u\<bar>"
    using False by (simp add: abs_sgn_eq)
  also have "\<dots> \<le> u * (1 / 2)"
    using u roundEven_close [of "\<bar>x\<bar> / u"] by (intro mult_left_mono) simp_all
  also have "\<dots> = 2 powi (expo x) / 2 ^ 53"
    using u52 by (simp add: field_simps)
  also have "\<dots> \<le> \<bar>x\<bar> / 2 ^ 53"
    using expo_lower [OF False] by (simp add: divide_right_mono)
  finally show ?thesis .
qed

lemma fl_close_numeral: "\<bar>fl x - x\<bar> \<le> \<bar>x\<bar> / 9007199254740992"
  using fl_close [of x] by simp

lemma fl_pos: "0 < x \<Longrightarrow> 0 < fl x"
  using fl_close_numeral [of x] by linarith

lemma fl_neg: "x < 0 \<Longrightarrow> fl x < 0"
  using fl_close_numeral [of x] by linarith

lemma fl_zero [simp]: "fl 0 = 0"
  by (simp add: fl_def)

lemma fl_nonneg: "0 \<le> x \<Longrightarrow> 0 \<le> fl x"
  using fl_pos [of x] by (cases "x = 0") (simp_all add: less_imp_le)

lemma fl_bounds:
  assumes "0 \<le> x"
  shows "x * (9007199254740991 / 9007199254740992) \<le> fl x"
    and "fl x \<le> x * (9007199254740993 / 9007199254740992)"
  using fl_close_numeral [of x] assms by linarith+

lemma scaled_bounds:
  fixes w l h t :: real
  assumes "0 \<le> w" "w * l \<le> t" "t \<le> w * h" "1 - c \<le> l" "h \<le> 1 + c"
  shows "\<bar>t - w\<bar> \<le> w * c"
proof -
  from assms(1,4) have "w * (1 - c) \<le> w * l" by (rule mult_left_mono [rotated])
  moreover from assms(1,5) have "w * h \<le> w * (1 + c)" by (rule mult_left_mono [rotated])
  ultimately have "w - w * c \<le> t" "t \<le> w + w * c"
    using assms(2,3) by (simp_all add: algebra_simps)
  then show ?thesis by linarith
qed

lemma flip_error:
  fixes lo hi a b :: real
  assumes le: "lo \<le> hi" and pos: "0 < \<bar>a\<bar> + \<bar>b\<bar>"
  shows "\<bar>fl (lo + fl (fl (\<bar>a\<bar> / fl (\<bar>a\<bar> + \<bar>b\<bar>)) * fl (hi - lo)))
          - (lo + \<bar>a\<bar> / (\<bar>a\<bar> + \<bar>b\<bar>) * (hi - lo))\<bar>
         \<le> 7 * (\<bar>lo\<bar> + (hi - lo)) / 9007199254740992"
proof -
  define L :: real where "L = 9007199254740991 / 9007199254740992"
  define H :: real where "H = 9007199254740993 / 9007199254740992"
  define A where "A = \<bar>a\<bar>"
  define S where "S = \<bar>a\<bar> + \<bar>b\<bar>"
  define D where "D = hi - lo"
  define s where "s = fl S"
  define q where "q = A / s"
  define r where "r = fl q"
  define d where "d = fl D"
  define t where "t = fl (r * d)"
  define w where "w = A / S * D"
  have LH: "0 < L" "0 < H" "L \<le> 1" "1 \<le> H" by (simp_all add: L_def H_def)
  have A0: "0 \<le> A" and S0: "0 < S" and D0: "0 \<le> D" and AS: "A \<le> S"
    using le pos by (simp_all add: A_def S_def D_def)
  have rho: "0 \<le> A / S" "A / S \<le> 1" using A0 S0 AS by simp_all
  have w0: "0 \<le> w" unfolding w_def using rho(1) D0 by (rule mult_nonneg_nonneg)
  have wD: "w \<le> D"
  proof -
    have "A / S * D \<le> 1 * D" using rho(2) D0 by (rule mult_right_mono)
    then show ?thesis unfolding w_def by (simp only: mult_1)
  qed
  have s_b: "S * L \<le> s" "s \<le> S * H"
    using fl_bounds [of S] S0 by (simp_all add: s_def L_def H_def)
  have s0: "0 < s" using s_b(1) S0 LH(1) by (meson less_le_trans mult_pos_pos)
  have q_b: "A / (S * H) \<le> q" "q \<le> A / (S * L)"
  proof -
    show "A / (S * H) \<le> q" unfolding q_def
      using A0 s0 s_b(2) by (intro divide_left_mono) (simp_all add: S0 LH)
    show "q \<le> A / (S * L)" unfolding q_def
      using A0 s0 s_b(1) S0 LH(1) by (intro divide_left_mono) simp_all
  qed
  have q0: "0 \<le> q" using A0 s0 by (simp add: q_def)
  have r_b: "A / S * (L / H) \<le> r" "r \<le> A / S * (H / L)"
  proof -
    have "A / (S * H) * L \<le> q * L" by (rule mult_right_mono [OF q_b(1)]) (use LH in simp)
    also have "q * L \<le> r" using fl_bounds(1) [OF q0] by (simp add: r_def L_def)
    finally show "A / S * (L / H) \<le> r" by (simp add: field_simps)
    have "r \<le> q * H" using fl_bounds(2) [OF q0] by (simp add: r_def H_def)
    also have "q * H \<le> A / (S * L) * H" by (rule mult_right_mono [OF q_b(2)]) (use LH in simp)
    finally show "r \<le> A / S * (H / L)" by (simp add: field_simps)
  qed
  have r0: "0 \<le> r" using fl_nonneg [OF q0] by (simp add: r_def)
  have d_b: "D * L \<le> d" "d \<le> D * H"
    using fl_bounds [OF D0] by (simp_all add: d_def L_def H_def)
  have d0: "0 \<le> d" using fl_nonneg [OF D0] by (simp add: d_def)
  have rd0: "0 \<le> r * d" using r0 d0 by simp
  have rd_b: "w * (L * L / H) \<le> r * d" "r * d \<le> w * (H * H / L)"
  proof -
    have dl: "0 \<le> D * L" using D0 LH(1) by simp
    have "(A / S * (L / H)) * (D * L) \<le> r * d"
      using r_b(1) d_b(1) r0 dl by (rule mult_mono)
    then show "w * (L * L / H) \<le> r * d" by (simp add: w_def field_simps)
    have "0 \<le> H / L" using LH(1,2) by simp
    with rho(1) have hl: "0 \<le> A / S * (H / L)" by (rule mult_nonneg_nonneg)
    have "r * d \<le> (A / S * (H / L)) * (D * H)"
      using r_b(2) d_b(2) hl d0 by (rule mult_mono)
    then show "r * d \<le> w * (H * H / L)" by (simp add: w_def field_simps)
  qed
  have t_b: "w * (L * L * L / H) \<le> t" "t \<le> w * (H * H * H / L)"
  proof -
    have "w * (L * L / H) * L \<le> r * d * L" by (rule mult_right_mono [OF rd_b(1)]) (use LH in simp)
    also have "r * d * L \<le> t" using fl_bounds(1) [OF rd0] by (simp add: t_def L_def)
    finally show "w * (L * L * L / H) \<le> t" by (simp add: field_simps)
    have "t \<le> r * d * H" using fl_bounds(2) [OF rd0] by (simp add: t_def H_def)
    also have "r * d * H \<le> w * (H * H / L) * H" by (rule mult_right_mono [OF rd_b(2)]) (use LH in simp)
    finally show "t \<le> w * (H * H * H / L)" by (simp add: field_simps)
  qed
  have num: "1 - 5 / 9007199254740992 \<le> L * L * L / H" "H * H * H / L \<le> 1 + 5 / 9007199254740992"
    by (simp_all add: L_def H_def)
  from scaled_bounds [OF w0 t_b num]
  have tw: "\<bar>t - w\<bar> \<le> w * (5 / 9007199254740992)" .
  have t0: "0 \<le> t" using fl_nonneg [OF rd0] by (simp add: t_def)
  have "\<bar>fl (lo + t) - (lo + t)\<bar> \<le> \<bar>lo + t\<bar> / 9007199254740992"
    by (rule fl_close_numeral)
  also have "\<bar>lo + t\<bar> \<le> \<bar>lo\<bar> + t" using t0 by linarith
  finally have ft: "\<bar>fl (lo + t) - (lo + t)\<bar> \<le> (\<bar>lo\<bar> + t) / 9007199254740992"
    by (simp add: divide_right_mono)
  have "t \<le> w + w * (5 / 9007199254740992)" using tw by linarith
  also have "\<dots> \<le> 2 * w" using w0 by simp
  finally have t2: "t \<le> 2 * w" .
  have "\<bar>fl (lo + t) - (lo + w)\<bar> \<le> \<bar>fl (lo + t) - (lo + t)\<bar> + \<bar>t - w\<bar>" by linarith
  also have "\<dots> \<le> (\<bar>lo\<bar> + 2 * w) / 9007199254740992 + w * (5 / 9007199254740992)"
    using ft tw t2 by (intro add_mono) (auto intro: order_trans divide_right_mono)
  also have "\<dots> = (\<bar>lo\<bar> + 7 * w) / 9007199254740992" by (simp add: field_simps)
  also have "\<dots> \<le> 7 * (\<bar>lo\<bar> + D) / 9007199254740992"
    using wD by (intro divide_right_mono) auto
  finally show ?thesis
    by (simp add: t_def r_def q_def s_def d_def w_def A_def S_def D_def)
qed

text \<open>
  The machine's interpolation at a crossing differs from the exact one by rounding only.
\<close>

lemma flipPrice_error:
  assumes "ks ! (i - 1) \<le> ks ! i" "straddles (agg ! (i - 1)) (agg ! i)"
  shows "\<bar>flipPrice ks agg i - exactFlipPrice ks agg i\<bar>
           \<le> 7 * (\<bar>ks ! (i - 1)\<bar> + (ks ! i - ks ! (i - 1))) / 9007199254740992"
proof -
  from assms(2) have "0 < \<bar>agg ! (i - 1)\<bar> + \<bar>agg ! i\<bar>" by (auto simp: straddles_def)
  from flip_error [OF assms(1) this] show ?thesis
    by (simp add: flipPrice_def exactFlipPrice_def Let_def)
qed

text \<open>
  The doubles of the literals 0.60 and 1.40, and how far the band's edges are from 0.6
  and 1.4 times the spot.
\<close>

lemma fl_literals:
  "fl 0.60 = 5404319552844595 / 9007199254740992"
  "fl 1.40 = 3152519739159347 / 2251799813685248"
  by code_simp+

lemma rangeMin_close: "\<bar>rangeMin spotPrice - spotPrice * 0.60\<bar> \<le> \<bar>spotPrice\<bar> / 9007199254740992"
proof -
  define c :: real where "c = 5404319552844595 / 9007199254740992"
  define y where "y = spotPrice * c"
  have r: "rangeMin spotPrice = fl y"
    by (simp only: rangeMin_def fl_literals c_def y_def)
  have a: "\<bar>y\<bar> = \<bar>spotPrice\<bar> * c" by (simp add: abs_mult c_def y_def)
  have y: "y = spotPrice * c" by (simp add: y_def)
  have k: "spotPrice * 0.60 = spotPrice * 3 / 5" by simp
  from fl_close_numeral [of y] a y
  have "\<bar>fl y - spotPrice * 3 / 5\<bar> \<le> \<bar>spotPrice\<bar> / 9007199254740992"
    unfolding c_def by linarith
  then show ?thesis by (simp only: r k)
qed

lemma rangeMax_close:
  "\<bar>rangeMax spotPrice - spotPrice * 1.40\<bar> \<le> 3 * \<bar>spotPrice\<bar> / 9007199254740992"
proof -
  define c :: real where "c = 3152519739159347 / 2251799813685248"
  define y where "y = spotPrice * c"
  have r: "rangeMax spotPrice = fl y"
    by (simp only: rangeMax_def fl_literals c_def y_def)
  have a: "\<bar>y\<bar> = \<bar>spotPrice\<bar> * c" by (simp add: abs_mult c_def y_def)
  have y: "y = spotPrice * c" by (simp add: y_def)
  have k: "spotPrice * 1.40 = spotPrice * 7 / 5" by simp
  from fl_close_numeral [of y] a y
  have "\<bar>fl y - spotPrice * 7 / 5\<bar> \<le> 3 * \<bar>spotPrice\<bar> / 9007199254740992"
    unfolding c_def by linarith
  then show ?thesis by (simp only: r k)
qed

text \<open>The band's edges have the sign of the spot.\<close>

lemma rangeMin_pos: "0 < spotPrice \<Longrightarrow> 0 < rangeMin spotPrice"
  unfolding rangeMin_def fl_literals by (rule fl_pos) simp

lemma rangeMax_neg: "spotPrice < 0 \<Longrightarrow> rangeMax spotPrice < 0"
  unfolding rangeMax_def fl_literals by (rule fl_neg) (simp add: mult_neg_pos)

text \<open>The band and the flip prices of the concrete runs, and two edge cases.\<close>

lemma band_102:
  "rangeMin 102 = 8613134287346073 / 140737488355328"
  "rangeMax 102 = 5024328334285209 / 35184372088832"
  by code_simp+

lemma band_10: "rangeMin 10 = 6" "rangeMax 10 = 14"
  by code_simp+

lemma band_50: "rangeMin 50 = 30" "rangeMax 50 = 70"
  by code_simp+

lemma band_neg5: "rangeMin (- 5) = - 3" "rangeMax (- 5) = - 7"
  by code_simp+

lemma band_100: "rangeMin 100 = 60" "rangeMax 100 = 140"
  by code_simp+

lemma band_0: "rangeMin 0 = 0" "rangeMax 0 = 0"
  by (simp_all add: rangeMin_def rangeMax_def)

lemma flip_sample:
  "flipPrice [9, 10, 11] [- 40, - 10, 20] (Suc (Suc 0)) = 5817149518686891 / 562949953421312"
  by code_simp

lemma flip_edge: "flipPrice [177 / 8, 179 / 8] [- 10, 0] (Suc 0) = 179 / 8"
  by code_simp

text \<open>
  At spot 45 the product with 1.40 rounds to a double below 63, so the strike 63 is
  outside the band; the interpolation on the curve [-1, 199] between 100 and 101 is a
  double below 100.005, which prints as 100.00.
\<close>

lemma band_edge_45: "rangeMax 45 = 8866461766385663 / 140737488355328" "rangeMax 45 < 63"
  by code_simp+

lemma flip_below_tie:
  "flipPrice [100, 101] [- 1, 199] (Suc 0) = 879653282685911 / 8796093022208"
  "toFixed2 (879653282685911 / 8796093022208) = 100"
proof -
  show "flipPrice [100, 101] [- 1, 199] (Suc 0) = 879653282685911 / 8796093022208"
    by code_simp
  show "toFixed2 (879653282685911 / 8796093022208) = 100"
    by (simp add: toFixed2_def)
qed

lemmas machine_values = band_102 band_10 band_50 band_neg5 band_100 band_0 flip_sample flip_edge


subsection \<open>Unfolding concrete runs\<close>

lemmas eval_defs =
  calculateGEX_def normalise_def processMap_def addLeg_def legGex_def cleanIV_def
  lookupAccum_def emptyAccum_def buildProfile_def mkRow_def Let_def leg_def
  crossings_def crossingIdx_def straddles_def pickFlip_def roundFlip_def machine_values
  nearer_def toFixed2_def walls_def inRange_def wallStep_def above_def atmIVof_def
  candidates_def ivReadings_def callWallIVof_def putWallIVof_def expDateOf_def observe_def

lemma workedChain_eval: "calculateGEX workedChain 102 = Inr (Some workedProfile)"
  by (simp add: workedChain_def workedProfile_def eval_defs upt_rec)

lemma sampleChain_eval: "calculateGEX sampleChain 10 = Inr (Some sampleProfile)"
  by (simp add: sampleChain_def sampleProfile_def sampleRow9_def sampleRow10_def
      sampleRow11_def fullLeg_def eval_defs upt_rec)

lemma flatChain_eval: "calculateGEX flatChain 50 = Inr (Some flatProfile)"
  by (simp add: flatChain_def flatProfile_def eval_defs upt_rec)

lemma negSpot_eval: "calculateGEX workedChain (- 5) = Inr (Some negSpotProfile)"
  by (simp add: workedChain_def negSpotProfile_def eval_defs upt_rec)

lemma wallChain_eval: "calculateGEX wallChain 100 = Inr (Some wallProfile)"
  by (simp add: wallChain_def wallProfile_def eval_defs upt_rec)

lemma zeroChain_eval: "calculateGEX zeroChain 0 = Inr (Some zeroProfile)"
  by (simp add: zeroChain_def zeroProfile_def fullLeg_def eval_defs upt_rec)

lemma edgeChain_eval: "calculateGEX edgeChain 10 = Inr (Some edgeProfile)"
  by (simp add: edgeChain_def edgeProfile_def eval_defs upt_rec)


lemma toUpperCase_spy: "toUpperCase ''spy'' = ''SPY''"
  by code_simp

subsection \<open>The shape of a profile\<close>

lemma calculateGEX_SomeD:
  assumes "calculateGEX chain spotPrice = Inr (Some p)"
  obtains byStrike dates where
    "normalise chain spotPrice = Inr (byStrike, dates)"
    "buildProfile spotPrice byStrike dates = Some p"
  using assms by (auto simp: calculateGEX_def split: sum.splits prod.splits)

lemma strike_mkRow [simp]: "strike (mkRow byStrike k) = k"
  by (simp add: mkRow_def Let_def)

lemma strike_comp_mkRow [simp]: "strike \<circ> mkRow byStrike = id"
  by (simp add: fun_eq_iff)

lemma buildProfile_SomeD:
  assumes "buildProfile spotPrice byStrike dates = Some p"
  shows "sort (map fst byStrike) \<noteq> []"
    and "strikes p = map (mkRow byStrike) (sort (map fst byStrike))"
    and "map strike (strikes p) = sort (map fst byStrike)"
    and "aggregateGex p = runningSums 0 (map netGex (strikes p))"
    and "gammaFlip p =
          roundFlip (pickFlip spotPrice (crossings (map strike (strikes p)) (aggregateGex p)))"
    and "callWall p = fst (walls spotPrice (strikes p))"
    and "putWall p = fst (snd (snd (walls spotPrice (strikes p))))"
    and "atmIV p = atmIVof spotPrice (strikes p)"
    and "callWallIV p = callWallIVof (callWall p) (strikes p)"
    and "putWallIV p = putWallIVof (putWall p) (strikes p)"
  using assms by (auto simp: buildProfile_def Let_def split: if_splits)

text \<open>A valid chain always yields a profile; a chain with no strike entry yields null.\<close>

lemma addLeg_keys:
  "fst ` set (addLeg spotPrice isCall k c byStrike) = insert k (fst ` set byStrike)"
  by (simp add: addLeg_def Let_def dom_update)

lemma processStrikes_total:
  "list_all (\<lambda>e. hasContract (snd e)) entries \<Longrightarrow>
   \<exists>byStrike'. processStrikes spotPrice isCall entries byStrike = Inr byStrike'
     \<and> fst ` set byStrike' = fst ` set byStrike \<union> fst ` set entries"
proof (induction entries arbitrary: byStrike)
  case Nil
  then show ?case by simp
next
  case (Cons e rest)
  obtain k cs where e: "e = (k, cs)" by (cases e)
  from Cons.prems e obtain c where c: "firstContract cs = Inr c"
    by (auto simp: hasContract_def split: sum.splits)
  from Cons.prems have "list_all (\<lambda>e. hasContract (snd e)) rest" by simp
  from Cons.IH [OF this, of "addLeg spotPrice isCall k c byStrike"]
  show ?case by (auto simp: e c addLeg_keys)
qed

lemma processEntries_total:
  "list_all (\<lambda>e. hasContract (snd e)) (concat (map snd m)) \<Longrightarrow>
   \<exists>st'. processEntries spotPrice isCall m st = Inr st'
     \<and> fst ` set (fst st') = fst ` set (fst st) \<union> fst ` set (concat (map snd m))"
proof (induction m arbitrary: st)
  case Nil
  then show ?case by simp
next
  case (Cons e rest)
  obtain expDateStr strikesObj where e: "e = (expDateStr, strikesObj)" by (cases e)
  obtain byStrike dates where st: "st = (byStrike, dates)" by (cases st)
  from Cons.prems e have a: "list_all (\<lambda>e. hasContract (snd e)) strikesObj"
    and r: "list_all (\<lambda>e. hasContract (snd e)) (concat (map snd rest))"
    by simp_all
  from processStrikes_total [OF a, of spotPrice isCall byStrike] obtain byStrike' where
    s: "processStrikes spotPrice isCall strikesObj byStrike = Inr byStrike'"
    "fst ` set byStrike' = fst ` set byStrike \<union> fst ` set strikesObj"
    by blast
  define dates' where
    "dates' = (if expDateOf expDateStr \<in> set dates then dates else dates @ [expDateOf expDateStr])"
  from Cons.IH [OF r, of "(byStrike', dates')"] obtain st' where
    t: "processEntries spotPrice isCall rest (byStrike', dates') = Inr st'"
    "fst ` set (fst st') = fst ` set byStrike' \<union> fst ` set (concat (map snd rest))"
    by auto
  have "processEntries spotPrice isCall (e # rest) st = Inr st'"
    by (simp add: e st Let_def s(1) t(1) flip: dates'_def)
  moreover have "fst ` set (fst st') = fst ` set (fst st) \<union> fst ` set (concat (map snd (e # rest)))"
    using s(2) t(2) by (auto simp: e st)
  ultimately show ?case by blast
qed

lemma processMap_total:
  assumes "list_all (\<lambda>e. hasContract (snd e)) (entriesOf optMap)"
  shows "\<exists>st'. processMap spotPrice optMap isCall st = Inr st'
     \<and> fst ` set (fst st') = fst ` set (fst st) \<union> fst ` set (entriesOf optMap)"
proof (cases optMap)
  case None
  then show ?thesis by (simp add: processMap_def entriesOf_def)
next
  case (Some m)
  with assms processEntries_total [of m spotPrice isCall st] show ?thesis
    by (simp add: processMap_def entriesOf_def)
qed

lemma calculateGEX_returns:
  assumes "validChain chain"
  shows "\<exists>p. calculateGEX chain spotPrice = Inr (Some p)"
proof -
  from assms have ne: "strikeEntries chain \<noteq> []"
    and c: "list_all (\<lambda>e. hasContract (snd e)) (entriesOf (callExpDateMap chain))"
    and p: "list_all (\<lambda>e. hasContract (snd e)) (entriesOf (putExpDateMap chain))"
    by (simp_all add: validChain_def strikeEntries_def)
  from processMap_total [OF c, of spotPrice True "([], [])"] obtain st where
    st: "processMap spotPrice (callExpDateMap chain) True ([], []) = Inr st"
    "fst ` set (fst st) = fst ` set (entriesOf (callExpDateMap chain))"
    by auto
  from processMap_total [OF p, of spotPrice False st] obtain st' where
    st': "processMap spotPrice (putExpDateMap chain) False st = Inr st'"
    "fst ` set (fst st') = fst ` set (fst st) \<union> fst ` set (entriesOf (putExpDateMap chain))"
    by auto
  obtain byStrike dates where bd: "st' = (byStrike, dates)" by (cases st')
  have n: "normalise chain spotPrice = Inr (byStrike, dates)"
    by (simp add: normalise_def st(1) st'(1) bd)
  have "fst ` set byStrike = fst ` set (strikeEntries chain)"
    using st(2) st'(2) by (simp add: bd strikeEntries_def image_Un)
  with ne have "byStrike \<noteq> []" by auto
  then have "sort (map fst byStrike) \<noteq> []"
    by (metis length_sort length_map length_0_conv)
  then have "\<exists>p. buildProfile spotPrice byStrike dates = Some p"
    by (simp add: buildProfile_def Let_def)
  with n show ?thesis by (auto simp: calculateGEX_def)
qed

lemma calculateGEX_empty:
  assumes "strikeEntries chain = []"
  shows "calculateGEX chain spotPrice = Inr None"
proof -
  from assms have c: "entriesOf (callExpDateMap chain) = []"
    and p: "entriesOf (putExpDateMap chain) = []"
    by (simp_all add: strikeEntries_def)
  from processMap_total [of "callExpDateMap chain" spotPrice True "([], [])"] c obtain st where
    st: "processMap spotPrice (callExpDateMap chain) True ([], []) = Inr st" "fst st = []"
    by auto
  from processMap_total [of "putExpDateMap chain" spotPrice False st] p st(2) obtain st' where
    st': "processMap spotPrice (putExpDateMap chain) False st = Inr st'" "fst st' = []"
    by auto
  obtain byStrike dates where bd: "st' = (byStrike, dates)" by (cases st')
  with st'(2) have "byStrike = []" by simp
  then show ?thesis
    by (simp add: calculateGEX_def normalise_def st(1) st'(1) bd buildProfile_def)
qed

subsection \<open>Strikes are unique and ascending\<close>

lemma addLeg_distinct:
  "distinct (map fst byStrike) \<Longrightarrow> distinct (map fst (addLeg spotPrice isCall k c byStrike))"
  by (simp add: addLeg_def Let_def distinct_update)

lemma processStrikes_distinct:
  "processStrikes spotPrice isCall entries byStrike = Inr byStrike' \<Longrightarrow>
   distinct (map fst byStrike) \<Longrightarrow> distinct (map fst byStrike')"
proof (induction spotPrice isCall entries byStrike rule: processStrikes.induct)
  case (1 spotPrice isCall byStrike)
  then show ?case by simp
next
  case (2 spotPrice isCall k cs rest byStrike)
  then show ?case
    by (auto split: sum.splits intro: addLeg_distinct)
qed

lemma processEntries_distinct:
  "processEntries spotPrice isCall m st = Inr st' \<Longrightarrow>
   distinct (map fst (fst st)) \<Longrightarrow> distinct (map fst (fst st'))"
proof (induction spotPrice isCall m st rule: processEntries.induct)
  case (1 spotPrice isCall st)
  then show ?case by simp
next
  case (2 spotPrice isCall expDateStr strikesObj rest byStrike dates)
  then show ?case
    by (auto simp: Let_def split: sum.splits dest: processStrikes_distinct)
qed

lemma processMap_distinct:
  "processMap spotPrice optMap isCall st = Inr st' \<Longrightarrow>
   distinct (map fst (fst st)) \<Longrightarrow> distinct (map fst (fst st'))"
  by (auto simp: processMap_def split: option.splits dest: processEntries_distinct)

lemma normalise_distinct:
  assumes "normalise chain spotPrice = Inr (byStrike, dates)"
  shows "distinct (map fst byStrike)"
proof -
  from assms obtain st where
    c: "processMap spotPrice (callExpDateMap chain) True ([], []) = Inr st" and
    p: "processMap spotPrice (putExpDateMap chain) False st = Inr (byStrike, dates)"
    by (auto simp: normalise_def split: sum.splits)
  from processMap_distinct [OF c] have "distinct (map fst (fst st))" by simp
  from processMap_distinct [OF p this] show ?thesis by simp
qed

lemma strikes_distinct:
  assumes "calculateGEX chain spotPrice = Inr (Some p)"
  shows "distinct (map strike (strikes p))" and "sorted (map strike (strikes p))"
proof -
  from assms obtain byStrike dates where
    n: "normalise chain spotPrice = Inr (byStrike, dates)" and
    b: "buildProfile spotPrice byStrike dates = Some p"
    by (rule calculateGEX_SomeD)
  from normalise_distinct [OF n] show "distinct (map strike (strikes p))"
    by (simp add: buildProfile_SomeD(3) [OF b])
  show "sorted (map strike (strikes p))"
    by (simp add: buildProfile_SomeD(3) [OF b])
qed

subsection \<open>Properties of every accumulator\<close>

text \<open>
  A property of accumulators that the fresh accumulator has and addLeg keeps holds of
  every accumulator after normalising: with the spot 0 every exposure is 0, and every IV
  carried lies in the closed interval from 0 to 500.
\<close>

lemma lookupAccum_update:
  "lookupAccum (AList.update k d byStrike) k' = (if k' = k then d else lookupAccum byStrike k')"
  by (simp add: lookupAccum_def update_conv')

lemma legGex_zero [simp]: "legGex 0 c = 0"
  by (simp add: legGex_def)

lemma processStrikes_invariant:
  assumes step: "\<And>k c b. \<forall>k'. P (lookupAccum b k') \<Longrightarrow>
                   \<forall>k'. P (lookupAccum (addLeg spotPrice isCall k c b) k')"
  shows "processStrikes spotPrice isCall entries byStrike = Inr byStrike' \<Longrightarrow>
         \<forall>k'. P (lookupAccum byStrike k') \<Longrightarrow> \<forall>k'. P (lookupAccum byStrike' k')"
proof (induction entries arbitrary: byStrike)
  case Nil
  then show ?case by simp
next
  case (Cons e rest)
  obtain k cs where e: "e = (k, cs)" by (cases e)
  from Cons.prems(1) obtain c where
    run: "processStrikes spotPrice isCall rest (addLeg spotPrice isCall k c byStrike) = Inr byStrike'"
    unfolding e by (auto split: sum.splits)
  from Cons.IH [OF run step [OF Cons.prems(2)]] show ?case .
qed

lemma processEntries_invariant:
  assumes step: "\<And>k c b. \<forall>k'. P (lookupAccum b k') \<Longrightarrow>
                   \<forall>k'. P (lookupAccum (addLeg spotPrice isCall k c b) k')"
  shows "processEntries spotPrice isCall m st = Inr st' \<Longrightarrow>
         \<forall>k'. P (lookupAccum (fst st) k') \<Longrightarrow> \<forall>k'. P (lookupAccum (fst st') k')"
proof (induction m arbitrary: st)
  case Nil
  then show ?case by simp
next
  case (Cons e rest)
  obtain expDateStr strikesObj where e: "e = (expDateStr, strikesObj)" by (cases e)
  obtain byStrike dates where st: "st = (byStrike, dates)" by (cases st)
  from Cons.prems(1) obtain byStrike' dates' where
    s: "processStrikes spotPrice isCall strikesObj byStrike = Inr byStrike'" and
    run: "processEntries spotPrice isCall rest (byStrike', dates') = Inr st'"
    unfolding e st by (auto simp: Let_def split: sum.splits)
  from processStrikes_invariant [of P spotPrice isCall, OF step s] Cons.prems(2)
  have "\<forall>k'. P (lookupAccum (fst (byStrike', dates')) k')" by (simp add: st)
  from Cons.IH [OF run this] show ?case .
qed

lemma normalise_invariant:
  assumes init: "P emptyAccum"
    and step: "\<And>isCall k c b. \<forall>k'. P (lookupAccum b k') \<Longrightarrow>
                   \<forall>k'. P (lookupAccum (addLeg spotPrice isCall k c b) k')"
    and run: "normalise chain spotPrice = Inr (byStrike, dates)"
  shows "P (lookupAccum byStrike k)"
proof -
  have z0: "\<forall>k'. P (lookupAccum (fst ([], [])) k')"
    using init by (simp add: lookupAccum_def)
  from run obtain st where
    c: "processMap spotPrice (callExpDateMap chain) True ([], []) = Inr st" and
    p: "processMap spotPrice (putExpDateMap chain) False st = Inr (byStrike, dates)"
    by (auto simp: normalise_def split: sum.splits)
  have z1: "\<forall>k'. P (lookupAccum (fst st) k')"
  proof (cases "callExpDateMap chain")
    case None
    with c z0 show ?thesis by (auto simp: processMap_def)
  next
    case (Some m)
    with c have "processEntries spotPrice True m ([], []) = Inr st" by (simp add: processMap_def)
    from processEntries_invariant [of P spotPrice True, OF step this z0] show ?thesis .
  qed
  have "\<forall>k'. P (lookupAccum (fst (byStrike, dates)) k')"
  proof (cases "putExpDateMap chain")
    case None
    with p z1 show ?thesis by (auto simp: processMap_def)
  next
    case (Some m)
    with p have "processEntries spotPrice False m st = Inr (byStrike, dates)"
      by (simp add: processMap_def)
    from processEntries_invariant [of P spotPrice False, OF step this z1] show ?thesis .
  qed
  then show ?thesis by simp
qed

lemma normalise_zero:
  assumes "normalise chain 0 = Inr (byStrike, dates)"
  shows "callGex (lookupAccum byStrike k) = 0 \<and> putGex (lookupAccum byStrike k) = 0"
proof (rule normalise_invariant [where P = "\<lambda>d. callGex d = 0 \<and> putGex d = 0", OF _ _ assms])
  show "callGex emptyAccum = 0 \<and> putGex emptyAccum = 0" by (simp add: emptyAccum_def)
  fix isCall k c b
  assume "\<forall>k'. callGex (lookupAccum b k') = 0 \<and> putGex (lookupAccum b k') = 0"
  then show "\<forall>k'. callGex (lookupAccum (addLeg 0 isCall k c b) k') = 0
                 \<and> putGex (lookupAccum (addLeg 0 isCall k c b) k') = 0"
    by (simp add: addLeg_def Let_def lookupAccum_update)
qed

lemma cleanIV_Some_iff: "cleanIV v = Some x \<longleftrightarrow> v = Some x \<and> 0 \<le> x \<and> x \<le> 500"
  by (auto simp: cleanIV_def split: option.splits)

lemma cleanIV_None_iff: "cleanIV v = None \<longleftrightarrow> v = None \<or> (\<exists>x. v = Some x \<and> (x < 0 \<or> 500 < x))"
  by (auto simp: cleanIV_def split: option.splits)



text \<open>Each side of a strike record carries the last reading that cleanIV kept.\<close>

lemma legsAt_Nil [simp]: "legsAt [] k = []"
  by (simp add: legsAt_def)


lemma legsAt_append [simp]: "legsAt (xs @ ys) k = legsAt xs k @ legsAt ys k"
  by (simp add: legsAt_def)







lemma foldl_keepIV_cases:
  "foldl keepIV old legs = old \<and> (\<forall>c\<in>set legs. cleanIV (volatility c) = None)
   \<or> (\<exists>c\<in>set legs. \<exists>x. foldl keepIV old legs = Some x \<and> cleanIV (volatility c) = Some x)"
proof (induction legs arbitrary: old)
  case Nil
  then show ?case by simp
next
  case (Cons c legs)
  from Cons.IH [of "keepIV old c"] show ?case
    by (cases "cleanIV (volatility c)") (auto simp: keepIV_def)
qed

lemma lastKeptIV_cases:
  "lastKeptIV entries k = None \<and> (\<forall>c\<in>set (legsAt entries k). cleanIV (volatility c) = None)
   \<or> (\<exists>c\<in>set (legsAt entries k). \<exists>x. lastKeptIV entries k = Some x
         \<and> volatility c = Some x \<and> 0 \<le> x \<and> x \<le> 500)"
  using foldl_keepIV_cases [of None "legsAt entries k"]
  by (auto simp: lastKeptIV_def cleanIV_Some_iff)

subsection \<open>The worked example\<close>

text \<open>
  Claim C1, as amended.  On the worked example (spot 102) calculateGEX returns callGex
  520200, putGex -332928 and net 187272 at strike 100; callGex 156060, putGex -187272 and
  net -31212 at strike 105; the cumulative curve [187272, 156060]; no gamma flip (null);
  call wall 100 and put wall 100.
\<close>

theorem worked_example_outputs:
  "calculateGEX workedChain 102 = Inr (Some
     \<lparr>strikes =
        [\<lparr>callGex = 520200, putGex = - 332928, callOI = 1000, putOI = 800,
            callVol = 0, putVol = 0, callIV = None, putIV = None,
            strike = 100, netGex = 187272, totalOI = 1800, totalVol = 0,
            volOIRatio = 0\<rparr>,
         \<lparr>callGex = 156060, putGex = - 187272, callOI = 500, putOI = 900,
            callVol = 0, putVol = 0, callIV = None, putIV = None,
            strike = 105, netGex = - 31212, totalOI = 1400, totalVol = 0,
            volOIRatio = 0\<rparr>],
      aggregateGex = [187272, 156060], gammaFlip = None,
      callWall = Some 100, putWall = Some 100, atmIV = None,
      callWallIV = None, putWallIV = None,
      expirationDates = [''2026-02-21'']\<rparr>)"
  using workedChain_eval by (simp add: workedProfile_def)

text \<open>
  The outputs listed for the worked example (52020, -33292.8, 18727.2, ..., flip 105,
  put wall 105) are not what calculateGEX returns.
\<close>

theorem worked_example_counterexample:
  "\<not> (observe (map callGex \<circ> strikes) (calculateGEX workedChain 102) = Some [52020, 15606]
      \<and> observe (map putGex \<circ> strikes) (calculateGEX workedChain 102)
          = Some [- 33292.8, - 18727.2]
      \<and> observe (map netGex \<circ> strikes) (calculateGEX workedChain 102)
          = Some [18727.2, - 3121.2]
      \<and> observe aggregateGex (calculateGEX workedChain 102) = Some [18727.2, 15606]
      \<and> observe gammaFlip (calculateGEX workedChain 102) = Some (Some 105)
      \<and> observe callWall (calculateGEX workedChain 102) = Some (Some 100)
      \<and> observe putWall (calculateGEX workedChain 102) = Some (Some 105))"
  by (simp add: workedChain_eval observe_def workedProfile_def)

subsection \<open>The cumulative curve\<close>

lemma length_runningSums [simp]: "length (runningSums r xs) = length xs"
  by (induction xs arbitrary: r) simp_all

lemma runningSums_nth:
  "i < length xs \<Longrightarrow> runningSums r xs ! i = r + sum_list (take (Suc i) xs)"
proof (induction xs arbitrary: r i)
  case Nil
  then show ?case by simp
next
  case (Cons x xs)
  show ?case
  proof (cases i)
    case 0
    then show ?thesis by simp
  next
    case (Suc j)
    with Cons.prems have "j < length xs" by simp
    from Cons.IH [OF this, of "r + x"] Suc show ?thesis by simp
  qed
qed

lemma runningSums_step:
  assumes "0 < i" "i < length xs"
  shows "runningSums r xs ! i = runningSums r xs ! (i - 1) + xs ! i"
proof -
  from assms obtain j where j: "i = Suc j" by (cases i) auto
  with assms have "j < length xs" by simp
  have "take (Suc i) xs = take i xs @ [xs ! i]"
    using assms by (simp add: take_Suc_conv_app_nth)
  then show ?thesis
    using assms j \<open>j < length xs\<close> by (simp add: runningSums_nth)
qed

lemma runningSums_last:
  assumes ne: "xs \<noteq> []"
  shows "last (runningSums r xs) = r + sum_list xs"
proof -
  from ne have "runningSums r xs \<noteq> []" by (cases xs) simp_all
  then have "last (runningSums r xs) = runningSums r xs ! (length xs - 1)"
    by (simp add: last_conv_nth)
  also have "\<dots> = r + sum_list (take (Suc (length xs - 1)) xs)"
    using ne by (intro runningSums_nth) simp
  finally show ?thesis using ne by simp
qed

lemma cumulative_curve_profile:
  assumes "calculateGEX chain spotPrice = Inr (Some p)"
  shows "length (aggregateGex p) = length (strikes p)
    \<and> strikes p \<noteq> []
    \<and> aggregateGex p ! 0 = netGex (strikes p ! 0)
    \<and> (\<forall>i. 0 < i \<and> i < length (strikes p) \<longrightarrow>
          aggregateGex p ! i = aggregateGex p ! (i - 1) + netGex (strikes p ! i))
    \<and> last (aggregateGex p) = sum_list (map netGex (strikes p))"
proof -
  from assms obtain byStrike dates where
    b: "buildProfile spotPrice byStrike dates = Some p"
    by (rule calculateGEX_SomeD)
  note d = buildProfile_SomeD [OF b]
  have ne: "strikes p \<noteq> []" using d(1,2) by simp
  have agg: "aggregateGex p = runningSums 0 (map netGex (strikes p))" by (rule d(4))
  have len: "length (aggregateGex p) = length (strikes p)" by (simp add: agg)
  have first: "aggregateGex p ! 0 = netGex (strikes p ! 0)"
    using ne by (cases "strikes p") (simp_all add: agg)
  have step: "aggregateGex p ! i = aggregateGex p ! (i - 1) + netGex (strikes p ! i)"
    if "0 < i" "i < length (strikes p)" for i
    using that by (simp add: agg runningSums_step)
  have lst: "last (aggregateGex p) = sum_list (map netGex (strikes p))"
    using ne by (simp add: agg runningSums_last)
  from len ne first step lst show ?thesis by blast
qed

text \<open>
  Claim C6.  For every valid chain and every spot, calculateGEX returns a profile; its
  cumulative sequence is as long as the strike list, its first entry is the first
  strike's net exposure, every later entry is the previous entry plus that strike's net
  exposure, and its last entry is the sum of the net exposure over all strikes.
\<close>

theorem cumulative_curve:
  assumes "validChain chain"
  shows "\<exists>p. calculateGEX chain spotPrice = Inr (Some p)
    \<and> length (aggregateGex p) = length (strikes p)
    \<and> strikes p \<noteq> []
    \<and> aggregateGex p ! 0 = netGex (strikes p ! 0)
    \<and> (\<forall>i. 0 < i \<and> i < length (strikes p) \<longrightarrow>
          aggregateGex p ! i = aggregateGex p ! (i - 1) + netGex (strikes p ! i))
    \<and> last (aggregateGex p) = sum_list (map netGex (strikes p))"
proof -
  from calculateGEX_returns [OF assms] obtain p where
    p: "calculateGEX chain spotPrice = Inr (Some p)" by blast
  from p cumulative_curve_profile [OF p] show ?thesis by blast
qed

theorem cumulative_curve_witness:
  "validChain workedChain
   \<and> calculateGEX workedChain 102 = Inr (Some workedProfile)
   \<and> length (aggregateGex workedProfile) = length (strikes workedProfile)
   \<and> aggregateGex workedProfile ! 0 = netGex (strikes workedProfile ! 0)
   \<and> aggregateGex workedProfile ! 1
       = aggregateGex workedProfile ! (1 - 1) + netGex (strikes workedProfile ! 1)
   \<and> last (aggregateGex workedProfile) = sum_list (map netGex (strikes workedProfile))"
proof -
  have v: "validChain workedChain"
    by (simp add: validChain_def strikeEntries_def entriesOf_def hasContract_def
        workedChain_def)
  from cumulative_curve [OF v, of 102] obtain p where
    p: "calculateGEX workedChain 102 = Inr (Some p)" and
    c: "length (aggregateGex p) = length (strikes p)"
      "aggregateGex p ! 0 = netGex (strikes p ! 0)"
      "\<forall>i. 0 < i \<and> i < length (strikes p) \<longrightarrow>
          aggregateGex p ! i = aggregateGex p ! (i - 1) + netGex (strikes p ! i)"
      "last (aggregateGex p) = sum_list (map netGex (strikes p))"
    by blast
  from p workedChain_eval have e: "p = workedProfile" by simp
  have "(0::nat) < 1 \<and> 1 < length (strikes workedProfile)"
    by (simp add: workedProfile_def)
  with c(3) e have "aggregateGex workedProfile ! 1
       = aggregateGex workedProfile ! (1 - 1) + netGex (strikes workedProfile ! 1)"
    by blast
  with v workedChain_eval c(1,2,4) e show ?thesis by blast
qed

text \<open>With the spot 0 the curve is 0 at every strike.\<close>

lemma sum_list_zeros: "\<forall>x\<in>set ys. x = (0::real) \<Longrightarrow> sum_list ys = 0"
  by (induction ys) simp_all

lemma runningSums_zeros:
  assumes "\<forall>x\<in>set xs. x = 0" "i < length xs"
  shows "runningSums 0 xs ! i = 0"
proof -
  from assms(1) have "\<forall>x\<in>set (take (Suc i) xs). x = 0" by (auto dest: in_set_takeD)
  then have "sum_list (take (Suc i) xs) = 0" by (rule sum_list_zeros)
  with assms(2) show ?thesis by (simp add: runningSums_nth)
qed

lemma spot_zero_curve:
  assumes "calculateGEX chain 0 = Inr (Some p)" "i < length (strikes p)"
  shows "aggregateGex p ! i = 0"
proof -
  from assms(1) obtain byStrike dates where
    n: "normalise chain 0 = Inr (byStrike, dates)" and
    b: "buildProfile 0 byStrike dates = Some p"
    by (rule calculateGEX_SomeD)
  note d = buildProfile_SomeD [OF b]
  have "netGex (mkRow byStrike k) = 0" for k
    using normalise_zero [OF n, of k] by (simp add: mkRow_def Let_def)
  then have "\<forall>x\<in>set (map netGex (strikes p)). x = 0" by (auto simp: d(2))
  from runningSums_zeros [OF this] assms(2) show ?thesis by (simp add: d(4))
qed

subsection \<open>No crossing, no gamma flip\<close>

lemma no_straddle_no_crossing:
  assumes "\<forall>i. 0 < i \<and> i < length ks \<longrightarrow> \<not> straddles (agg ! (i - 1)) (agg ! i)"
  shows "crossings ks agg = []"
  using assms by (auto simp: crossings_def crossingIdx_def filter_empty_conv)

text \<open>
  Claim C3, as amended.  When calculateGEX returns a profile whose cumulative curve has no
  adjacent pair straddling zero, the gamma flip is null: there is no fallback to the
  strike whose cumulative value is closest to zero.
\<close>

theorem no_crossing_flip_null:
  assumes "calculateGEX chain spotPrice = Inr (Some p)"
    and "\<forall>i. 0 < i \<and> i < length (strikes p) \<longrightarrow>
           \<not> straddles (aggregateGex p ! (i - 1)) (aggregateGex p ! i)"
  shows "gammaFlip p = None"
proof -
  from assms(1) obtain byStrike dates where
    b: "buildProfile spotPrice byStrike dates = Some p"
    by (rule calculateGEX_SomeD)
  have "length (map strike (strikes p)) = length (strikes p)" by simp
  with assms(2) have "crossings (map strike (strikes p)) (aggregateGex p) = []"
    by (intro no_straddle_no_crossing) simp
  then show ?thesis
    by (simp add: buildProfile_SomeD(5) [OF b] pickFlip_def roundFlip_def)
qed

theorem no_crossing_flip_null_witness:
  "calculateGEX flatChain 50 = Inr (Some flatProfile)
   \<and> \<not> straddles (aggregateGex flatProfile ! 0) (aggregateGex flatProfile ! 1)
   \<and> length (strikes flatProfile) = 2
   \<and> gammaFlip flatProfile = None"
proof -
  have len: "length (strikes flatProfile) = 2" by (simp add: flatProfile_def)
  have ns: "\<not> straddles (aggregateGex flatProfile ! 0) (aggregateGex flatProfile ! 1)"
    by (simp add: flatProfile_def straddles_def)
  have "\<forall>i. 0 < i \<and> i < length (strikes flatProfile) \<longrightarrow>
           \<not> straddles (aggregateGex flatProfile ! (i - 1)) (aggregateGex flatProfile ! i)"
  proof (intro allI impI)
    fix i :: nat
    assume "0 < i \<and> i < length (strikes flatProfile)"
    with len have "i = 1" by simp
    with ns show "\<not> straddles (aggregateGex flatProfile ! (i - 1)) (aggregateGex flatProfile ! i)"
      by simp
  qed
  from no_crossing_flip_null [OF flatChain_eval this] flatChain_eval ns len
  show ?thesis by blast
qed

text \<open>
  Strikes 50 and 55 with cumulative values 250 and 750: no crossing, and the flip is null
  rather than the strike 50.
\<close>

theorem no_crossing_fallback_counterexample:
  "observe (map strike \<circ> strikes) (calculateGEX flatChain 50) = Some [50, 55]
   \<and> observe aggregateGex (calculateGEX flatChain 50) = Some [250, 750]
   \<and> \<not> straddles 250 750
   \<and> observe gammaFlip (calculateGEX flatChain 50) = Some None
   \<and> observe gammaFlip (calculateGEX flatChain 50) \<noteq> Some (Some 50)"
  by (simp add: flatChain_eval observe_def flatProfile_def straddles_def)

subsection \<open>The gamma flip at a crossing\<close>

lemma nearer_cases: "nearer spotPrice c x = c \<or> nearer spotPrice c x = x"
  by (simp add: nearer_def)

lemma nearer_le:
  "\<bar>fl (nearer spotPrice c x - spotPrice)\<bar> \<le> \<bar>fl (c - spotPrice)\<bar>"
  "\<bar>fl (nearer spotPrice c x - spotPrice)\<bar> \<le> \<bar>fl (x - spotPrice)\<bar>"
  by (simp_all add: nearer_def)

lemma foldl_nearer:
  "foldl (nearer spotPrice) c rest \<in> set (c # rest)
   \<and> (\<forall>d\<in>set (c # rest).
         \<bar>fl (foldl (nearer spotPrice) c rest - spotPrice)\<bar> \<le> \<bar>fl (d - spotPrice)\<bar>)"
proof (induction rest arbitrary: c)
  case Nil
  then show ?case by simp
next
  case (Cons x xs)
  let ?r = "foldl (nearer spotPrice) (nearer spotPrice c x) xs"
  from Cons.IH [of "nearer spotPrice c x"]
  have mem: "?r \<in> set (nearer spotPrice c x # xs)"
    and le: "\<forall>d\<in>set (nearer spotPrice c x # xs).
               \<bar>fl (?r - spotPrice)\<bar> \<le> \<bar>fl (d - spotPrice)\<bar>"
    by blast+
  from le have n: "\<bar>fl (?r - spotPrice)\<bar> \<le> \<bar>fl (nearer spotPrice c x - spotPrice)\<bar>"
    by simp
  from n nearer_le(1) [of spotPrice c x]
  have lc: "\<bar>fl (?r - spotPrice)\<bar> \<le> \<bar>fl (c - spotPrice)\<bar>"
    by linarith
  from n nearer_le(2) [of spotPrice c x]
  have lx: "\<bar>fl (?r - spotPrice)\<bar> \<le> \<bar>fl (x - spotPrice)\<bar>"
    by linarith
  from mem nearer_cases [of spotPrice c x] have "?r \<in> set (c # x # xs)" by auto
  moreover from le lc lx
  have "\<forall>d\<in>set (c # x # xs). \<bar>fl (?r - spotPrice)\<bar> \<le> \<bar>fl (d - spotPrice)\<bar>"
    by simp
  ultimately show ?case by simp
qed

lemma pickFlip_nearest:
  assumes "cs \<noteq> []" "spotPrice \<noteq> 0"
  shows "\<exists>c\<in>set cs. pickFlip spotPrice cs = Some c
           \<and> (\<forall>d\<in>set cs. \<bar>fl (c - spotPrice)\<bar> \<le> \<bar>fl (d - spotPrice)\<bar>)"
proof -
  from assms(1) obtain c rest where cs: "cs = c # rest" by (cases cs) auto
  from foldl_nearer [of spotPrice c rest] assms(2) show ?thesis
    unfolding cs pickFlip_def by (simp del: foldl_Cons)
qed

text \<open>
  A rounded distance that is not larger belongs to an exact distance that is larger by at
  most two parts in \<open>2 ^ 53\<close>.
\<close>

lemma fl_dist:
  assumes "\<bar>fl x\<bar> \<le> \<bar>fl y\<bar>"
  shows "\<bar>x\<bar> * 9007199254740991 \<le> \<bar>y\<bar> * 9007199254740993"
  using assms fl_close_numeral [of x] fl_close_numeral [of y] by linarith

text \<open>The exact interpolation lies between the two strikes of the pair.\<close>

lemma straddles_ratio:
  assumes "straddles a b"
  shows "0 \<le> \<bar>a\<bar> / (\<bar>a\<bar> + \<bar>b\<bar>)" and "\<bar>a\<bar> / (\<bar>a\<bar> + \<bar>b\<bar>) \<le> 1"
proof -
  from assms have pos: "0 < \<bar>a\<bar> + \<bar>b\<bar>" by (auto simp: straddles_def)
  show "0 \<le> \<bar>a\<bar> / (\<bar>a\<bar> + \<bar>b\<bar>)" by simp
  from pos show "\<bar>a\<bar> / (\<bar>a\<bar> + \<bar>b\<bar>) \<le> 1" by (simp add: divide_le_eq)
qed

lemma interpolate_between:
  fixes lo hi r :: real
  assumes "lo \<le> hi" "0 \<le> r" "r \<le> 1"
  shows "lo \<le> lo + r * (hi - lo)" and "lo + r * (hi - lo) \<le> hi"
proof -
  from assms have d: "0 \<le> hi - lo" by simp
  with assms(2) have "0 \<le> r * (hi - lo)" by simp
  then show "lo \<le> lo + r * (hi - lo)" by simp
  from assms(3) d have "r * (hi - lo) \<le> 1 * (hi - lo)" by (rule mult_right_mono)
  then show "lo + r * (hi - lo) \<le> hi" by simp
qed

lemma exactFlipPrice_between:
  assumes "sorted ks" "0 < i" "i < length ks" "straddles (agg ! (i - 1)) (agg ! i)"
  shows "ks ! (i - 1) \<le> exactFlipPrice ks agg i" and "exactFlipPrice ks agg i \<le> ks ! i"
proof -
  from assms(1,2,3) have le: "ks ! (i - 1) \<le> ks ! i"
    by (intro sorted_nth_mono) simp_all
  note r = straddles_ratio [OF assms(4)]
  from interpolate_between [OF le r]
  show "ks ! (i - 1) \<le> exactFlipPrice ks agg i" and "exactFlipPrice ks agg i \<le> ks ! i"
    by (simp_all add: exactFlipPrice_def Let_def)
qed

lemma toFixed2_zero [simp]: "toFixed2 0 = 0"
  by (simp add: toFixed2_def)

lemma roundFlip_Some: "roundFlip (Some x) = Some (toFixed2 x)"
  by (simp add: roundFlip_def)

lemma toFixed2_close: "\<bar>toFixed2 x - x\<bar> \<le> 1 / 200"
proof -
  define y where "y = \<bar>x\<bar> * 100"
  define n where "n = \<lfloor>y + 1 / 2\<rfloor>"
  have "of_int n \<le> y + 1 / 2" "y + 1 / 2 < of_int n + 1"
    unfolding n_def by linarith+
  then have d: "\<bar>of_int n - y\<bar> \<le> 1 / 2" by linarith
  have "toFixed2 x - x = sgn x * ((of_int n - y) / 100)"
  proof -
    have "x = sgn x * \<bar>x\<bar>" by (simp add: sgn_mult_abs)
    then have "x = sgn x * (y / 100)" by (simp add: y_def)
    then have "toFixed2 x - x = sgn x * of_int n / 100 - sgn x * (y / 100)"
      by (simp add: toFixed2_def n_def y_def)
    also have "\<dots> = sgn x * ((of_int n - y) / 100)" by (simp add: algebra_simps diff_divide_distrib)
    finally show ?thesis .
  qed
  then have "\<bar>toFixed2 x - x\<bar> = \<bar>sgn x * ((of_int n - y) / 100)\<bar>"
    by (simp only:)
  also have "\<dots> = \<bar>sgn x\<bar> * \<bar>(of_int n - y) / 100\<bar>"
    by (rule abs_mult)
  also have "\<dots> = \<bar>sgn x\<bar> * (\<bar>of_int n - y\<bar> / 100)"
    by simp
  also have "\<dots> \<le> 1 * (\<bar>of_int n - y\<bar> / 100)"
    by (intro mult_right_mono) (simp_all add: abs_sgn_eq)
  also have "\<dots> \<le> 1 / 200" using d by simp
  finally show ?thesis .
qed

lemma toFixed2_hundredth: "\<exists>n::int. toFixed2 x = of_int n / 100"
proof (cases "x < 0")
  case True
  then have "toFixed2 x = of_int (- \<lfloor>\<bar>x\<bar> * 100 + 1 / 2\<rfloor>) / 100"
    by (simp add: toFixed2_def)
  then show ?thesis by blast
next
  case False
  show ?thesis
  proof (cases "x = 0")
    case True
    then have "toFixed2 x = of_int 0 / 100" by simp
    then show ?thesis by blast
  next
    case False
    with \<open>\<not> x < 0\<close> have "toFixed2 x = of_int \<lfloor>\<bar>x\<bar> * 100 + 1 / 2\<rfloor> / 100"
      by (simp add: toFixed2_def)
    then show ?thesis by blast
  qed
qed

lemma set_crossingIdx:
  "i \<in> set (crossingIdx ks agg) \<longleftrightarrow>
     0 < i \<and> i < length ks \<and> straddles (agg ! (i - 1)) (agg ! i)"
  by (auto simp: crossingIdx_def)

text \<open>
  Claim C5, as amended.  When calculateGEX returns a profile whose cumulative curve has an
  adjacent pair straddling zero, the spot is not 0 and the gamma flip is not null.  The
  code interpolates at every straddling pair in double precision: its price flipPrice
  differs from the exact interpolation
  strike[i-1] + |cum[i-1]| / (|cum[i-1]| + |cum[i]|) * (strike[i] - strike[i-1]),
  which lies between the smallest and the largest strike, by at most
  7 * (|strike[i-1]| + (strike[i] - strike[i-1])) / 2^53.  The pair chosen is one whose
  price has the smallest rounded distance to the spot, so that its exact distance exceeds
  no other pair's by more than two parts in 2^53.  The gamma flip is that price as toFixed(2)
  prints it: a whole number of hundredths within 0.005 of the price (and so it can leave
  the range of the strikes by a rounding step).
\<close>

theorem crossing_flip:
  assumes run: "calculateGEX chain spotPrice = Inr (Some p)"
    and ex: "\<exists>i. 0 < i \<and> i < length (strikes p)
               \<and> straddles (aggregateGex p ! (i - 1)) (aggregateGex p ! i)"
  shows "spotPrice \<noteq> 0
    \<and> (\<forall>j. 0 < j \<and> j < length (strikes p) \<longrightarrow>
          exactFlipPrice (map strike (strikes p)) (aggregateGex p) j
          = strike (strikes p ! (j - 1))
            + \<bar>aggregateGex p ! (j - 1)\<bar> / (\<bar>aggregateGex p ! (j - 1)\<bar> + \<bar>aggregateGex p ! j\<bar>)
              * (strike (strikes p ! j) - strike (strikes p ! (j - 1))))
    \<and> (\<forall>j. 0 < j \<and> j < length (strikes p)
             \<and> straddles (aggregateGex p ! (j - 1)) (aggregateGex p ! j) \<longrightarrow>
          \<bar>flipPrice (map strike (strikes p)) (aggregateGex p) j
             - exactFlipPrice (map strike (strikes p)) (aggregateGex p) j\<bar>
            \<le> 7 * (\<bar>strike (strikes p ! (j - 1))\<bar>
                     + (strike (strikes p ! j) - strike (strikes p ! (j - 1))))
                / 9007199254740992
        \<and> Min (strike ` set (strikes p))
             \<le> exactFlipPrice (map strike (strikes p)) (aggregateGex p) j
        \<and> exactFlipPrice (map strike (strikes p)) (aggregateGex p) j
             \<le> Max (strike ` set (strikes p)))
    \<and> (\<exists>i. 0 < i \<and> i < length (strikes p)
          \<and> straddles (aggregateGex p ! (i - 1)) (aggregateGex p ! i)
          \<and> gammaFlip p
              = Some (toFixed2 (flipPrice (map strike (strikes p)) (aggregateGex p) i))
          \<and> (\<exists>n::int. gammaFlip p = Some (of_int n / 100))
          \<and> \<bar>toFixed2 (flipPrice (map strike (strikes p)) (aggregateGex p) i)
               - flipPrice (map strike (strikes p)) (aggregateGex p) i\<bar> \<le> 1 / 200
          \<and> (\<forall>j. 0 < j \<and> j < length (strikes p)
                   \<and> straddles (aggregateGex p ! (j - 1)) (aggregateGex p ! j) \<longrightarrow>
                 \<bar>fl (flipPrice (map strike (strikes p)) (aggregateGex p) i - spotPrice)\<bar>
                   \<le> \<bar>fl (flipPrice (map strike (strikes p)) (aggregateGex p) j - spotPrice)\<bar>
               \<and> \<bar>flipPrice (map strike (strikes p)) (aggregateGex p) i - spotPrice\<bar>
                     * 9007199254740991
                   \<le> \<bar>flipPrice (map strike (strikes p)) (aggregateGex p) j - spotPrice\<bar>
                     * 9007199254740993))"
proof -
  define ks where "ks = map strike (strikes p)"
  define agg where "agg = aggregateGex p"
  from run obtain byStrike dates where
    b: "buildProfile spotPrice byStrike dates = Some p"
    by (rule calculateGEX_SomeD)
  note d = buildProfile_SomeD [OF b]
  have len: "length ks = length (strikes p)" by (simp add: ks_def)
  have srt: "sorted ks" unfolding ks_def by (rule strikes_distinct(2) [OF run])
  have flip: "gammaFlip p = roundFlip (pickFlip spotPrice (crossings ks agg))"
    unfolding ks_def agg_def by (rule d(5))
  from ex obtain i0 where i0: "0 < i0" "i0 < length (strikes p)"
    "straddles (agg ! (i0 - 1)) (agg ! i0)"
    unfolding agg_def by blast
  have spot: "spotPrice \<noteq> 0"
  proof
    assume z: "spotPrice = 0"
    from i0(1,2) have "i0 - 1 < length (strikes p)" by simp
    with run z i0(2) have "agg ! (i0 - 1) = 0" "agg ! i0 = 0"
      unfolding agg_def by (simp_all add: spot_zero_curve)
    with i0(3) show False by (simp add: straddles_def)
  qed
  have formula: "exactFlipPrice ks agg j
          = strike (strikes p ! (j - 1))
            + \<bar>agg ! (j - 1)\<bar> / (\<bar>agg ! (j - 1)\<bar> + \<bar>agg ! j\<bar>)
              * (strike (strikes p ! j) - strike (strikes p ! (j - 1)))"
    if "0 < j \<and> j < length (strikes p)" for j
    using that by (auto simp: exactFlipPrice_def Let_def ks_def)
  have fin: "finite (set ks)" by simp
  have sk: "set ks = strike ` set (strikes p)" by (simp add: ks_def)
  have machine: "\<bar>flipPrice ks agg j - exactFlipPrice ks agg j\<bar>
            \<le> 7 * (\<bar>strike (strikes p ! (j - 1))\<bar>
                     + (strike (strikes p ! j) - strike (strikes p ! (j - 1))))
                / 9007199254740992
        \<and> Min (set ks) \<le> exactFlipPrice ks agg j
        \<and> exactFlipPrice ks agg j \<le> Max (set ks)"
    if j: "0 < j \<and> j < length (strikes p) \<and> straddles (agg ! (j - 1)) (agg ! j)" for j
  proof -
    from j len have j': "0 < j" "j < length ks" "straddles (agg ! (j - 1)) (agg ! j)"
      by simp_all
    from srt j'(1,2) have le: "ks ! (j - 1) \<le> ks ! j"
      by (intro sorted_nth_mono) simp_all
    have n1: "ks ! (j - 1) = strike (strikes p ! (j - 1))" and n2: "ks ! j = strike (strikes p ! j)"
      using j'(1,2) len by (simp_all add: ks_def)
    from flipPrice_error [OF le j'(3)]
    have e: "\<bar>flipPrice ks agg j - exactFlipPrice ks agg j\<bar>
            \<le> 7 * (\<bar>strike (strikes p ! (j - 1))\<bar>
                     + (strike (strikes p ! j) - strike (strikes p ! (j - 1))))
                / 9007199254740992"
      unfolding n1 n2 .
    have m1: "ks ! (j - 1) \<in> set ks" and m2: "ks ! j \<in> set ks"
      using j'(1,2) by simp_all
    from exactFlipPrice_between [OF srt j']
    have btw: "ks ! (j - 1) \<le> exactFlipPrice ks agg j" "exactFlipPrice ks agg j \<le> ks ! j" .
    have "Min (set ks) \<le> ks ! (j - 1)" using fin m1 by (rule Min_le)
    with btw(1) have lo: "Min (set ks) \<le> exactFlipPrice ks agg j" by linarith
    have "ks ! j \<le> Max (set ks)" using fin m2 by (rule Max_ge)
    with btw(2) have hi: "exactFlipPrice ks agg j \<le> Max (set ks)" by linarith
    from e lo hi show ?thesis by blast
  qed
  from i0 len have "i0 \<in> set (crossingIdx ks agg)" by (simp add: set_crossingIdx)
  then have ne: "crossings ks agg \<noteq> []" by (auto simp: crossings_def)
  from pickFlip_nearest [OF ne spot] obtain c where
    c: "c \<in> set (crossings ks agg)" "pickFlip spotPrice (crossings ks agg) = Some c"
    "\<forall>d\<in>set (crossings ks agg). \<bar>fl (c - spotPrice)\<bar> \<le> \<bar>fl (d - spotPrice)\<bar>"
    by blast
  from c(1) obtain i where i: "i \<in> set (crossingIdx ks agg)" "c = flipPrice ks agg i"
    by (auto simp: crossings_def)
  from i(1) len have i': "0 < i" "i < length (strikes p)"
    "straddles (agg ! (i - 1)) (agg ! i)"
    by (simp_all add: set_crossingIdx)
  have g: "gammaFlip p = Some (toFixed2 (flipPrice ks agg i))"
    by (simp add: flip c(2) i(2) roundFlip_Some)
  from toFixed2_hundredth [of "flipPrice ks agg i"] g
  have h: "\<exists>n::int. gammaFlip p = Some (of_int n / 100)" by auto
  have near: "\<bar>fl (flipPrice ks agg i - spotPrice)\<bar> \<le> \<bar>fl (flipPrice ks agg j - spotPrice)\<bar>
      \<and> \<bar>flipPrice ks agg i - spotPrice\<bar> * 9007199254740991
          \<le> \<bar>flipPrice ks agg j - spotPrice\<bar> * 9007199254740993"
    if "0 < j \<and> j < length (strikes p) \<and> straddles (agg ! (j - 1)) (agg ! j)" for j
  proof -
    from that len have "j \<in> set (crossingIdx ks agg)" by (simp add: set_crossingIdx)
    then have "flipPrice ks agg j \<in> set (crossings ks agg)" by (simp add: crossings_def)
    with c(3) i(2)
    have r: "\<bar>fl (flipPrice ks agg i - spotPrice)\<bar> \<le> \<bar>fl (flipPrice ks agg j - spotPrice)\<bar>"
      by blast
    from r fl_dist [OF r] show ?thesis by blast
  qed
  note close = toFixed2_close [of "flipPrice ks agg i"]
  have chosen: "\<exists>i. 0 < i \<and> i < length (strikes p)
          \<and> straddles (agg ! (i - 1)) (agg ! i)
          \<and> gammaFlip p = Some (toFixed2 (flipPrice ks agg i))
          \<and> (\<exists>n::int. gammaFlip p = Some (of_int n / 100))
          \<and> \<bar>toFixed2 (flipPrice ks agg i) - flipPrice ks agg i\<bar> \<le> 1 / 200
          \<and> (\<forall>j. 0 < j \<and> j < length (strikes p) \<and> straddles (agg ! (j - 1)) (agg ! j) \<longrightarrow>
                 \<bar>fl (flipPrice ks agg i - spotPrice)\<bar> \<le> \<bar>fl (flipPrice ks agg j - spotPrice)\<bar>
               \<and> \<bar>flipPrice ks agg i - spotPrice\<bar> * 9007199254740991
                   \<le> \<bar>flipPrice ks agg j - spotPrice\<bar> * 9007199254740993)"
    using i' g h close near by blast
  from spot formula machine chosen show ?thesis
    unfolding sk ks_def [symmetric] agg_def [symmetric] by blast
qed

theorem crossing_flip_witness:
  "calculateGEX sampleChain 10 = Inr (Some sampleProfile)
   \<and> straddles (aggregateGex sampleProfile ! (2 - 1)) (aggregateGex sampleProfile ! 2)
   \<and> exactFlipPrice (map strike (strikes sampleProfile)) (aggregateGex sampleProfile) 2 = 31 / 3
   \<and> flipPrice (map strike (strikes sampleProfile)) (aggregateGex sampleProfile) 2
       = 5817149518686891 / 562949953421312
   \<and> gammaFlip sampleProfile = Some 10.33
   \<and> (10::real) \<noteq> 0
   \<and> \<bar>flipPrice (map strike (strikes sampleProfile)) (aggregateGex sampleProfile) 2
        - exactFlipPrice (map strike (strikes sampleProfile)) (aggregateGex sampleProfile) 2\<bar>
       \<le> 7 * (\<bar>strike (strikes sampleProfile ! (2 - 1))\<bar>
                + (strike (strikes sampleProfile ! 2) - strike (strikes sampleProfile ! (2 - 1))))
           / 9007199254740992
   \<and> Min (strike ` set (strikes sampleProfile))
        \<le> exactFlipPrice (map strike (strikes sampleProfile)) (aggregateGex sampleProfile) 2
   \<and> exactFlipPrice (map strike (strikes sampleProfile)) (aggregateGex sampleProfile) 2
        \<le> Max (strike ` set (strikes sampleProfile))
   \<and> (\<exists>i. 0 < i \<and> i < length (strikes sampleProfile)
         \<and> gammaFlip sampleProfile
             = Some (toFixed2 (flipPrice (map strike (strikes sampleProfile))
                                (aggregateGex sampleProfile) i))
         \<and> (\<exists>n::int. gammaFlip sampleProfile = Some (of_int n / 100))
         \<and> \<bar>toFixed2 (flipPrice (map strike (strikes sampleProfile))
                         (aggregateGex sampleProfile) i)
              - flipPrice (map strike (strikes sampleProfile)) (aggregateGex sampleProfile) i\<bar>
             \<le> 1 / 200)"
proof -
  have s: "straddles (aggregateGex sampleProfile ! (2 - 1)) (aggregateGex sampleProfile ! 2)"
    by (simp add: sampleProfile_def straddles_def)
  have l: "(0::nat) < 2 \<and> 2 < length (strikes sampleProfile)"
    by (simp add: sampleProfile_def)
  have x: "exactFlipPrice (map strike (strikes sampleProfile)) (aggregateGex sampleProfile) 2
             = 31 / 3"
    by (simp add: sampleProfile_def sampleRow9_def sampleRow10_def sampleRow11_def
        exactFlipPrice_def Let_def)
  have f: "flipPrice (map strike (strikes sampleProfile)) (aggregateGex sampleProfile) 2
             = 5817149518686891 / 562949953421312"
    using flip_sample
    by (simp add: sampleProfile_def sampleRow9_def sampleRow10_def sampleRow11_def
        numeral_2_eq_2)
  have g: "gammaFlip sampleProfile = Some 10.33" by (simp add: sampleProfile_def)
  from s l have e: "\<exists>i. 0 < i \<and> i < length (strikes sampleProfile)
      \<and> straddles (aggregateGex sampleProfile ! (i - 1)) (aggregateGex sampleProfile ! i)"
    by blast
  note t = crossing_flip [OF sampleChain_eval e]
  from t s l have m:
    "\<bar>flipPrice (map strike (strikes sampleProfile)) (aggregateGex sampleProfile) 2
        - exactFlipPrice (map strike (strikes sampleProfile)) (aggregateGex sampleProfile) 2\<bar>
       \<le> 7 * (\<bar>strike (strikes sampleProfile ! (2 - 1))\<bar>
                + (strike (strikes sampleProfile ! 2) - strike (strikes sampleProfile ! (2 - 1))))
           / 9007199254740992
   \<and> Min (strike ` set (strikes sampleProfile))
        \<le> exactFlipPrice (map strike (strikes sampleProfile)) (aggregateGex sampleProfile) 2
   \<and> exactFlipPrice (map strike (strikes sampleProfile)) (aggregateGex sampleProfile) 2
        \<le> Max (strike ` set (strikes sampleProfile))"
    by blast
  from t have c: "(10::real) \<noteq> 0
   \<and> (\<exists>i. 0 < i \<and> i < length (strikes sampleProfile)
         \<and> gammaFlip sampleProfile
             = Some (toFixed2 (flipPrice (map strike (strikes sampleProfile))
                                (aggregateGex sampleProfile) i))
         \<and> (\<exists>n::int. gammaFlip sampleProfile = Some (of_int n / 100))
         \<and> \<bar>toFixed2 (flipPrice (map strike (strikes sampleProfile))
                         (aggregateGex sampleProfile) i)
              - flipPrice (map strike (strikes sampleProfile)) (aggregateGex sampleProfile) i\<bar>
             \<le> 1 / 200)"
    by blast
  from sampleChain_eval s x f g m c show ?thesis by blast
qed

text \<open>
  The curve [-10, 0] crosses at the last strike 22.375, which is also the price the code
  interpolates; the flip is 22.38, above the largest strike.
\<close>

theorem rounded_flip_counterexample:
  "observe (map strike \<circ> strikes) (calculateGEX edgeChain 10) = Some [22.125, 22.375]
   \<and> observe aggregateGex (calculateGEX edgeChain 10) = Some [- 10, 0]
   \<and> straddles (- 10) 0
   \<and> observe gammaFlip (calculateGEX edgeChain 10) = Some (Some 22.38)
   \<and> (22.375 :: real) < 22.38"
  by (simp add: edgeChain_eval observe_def edgeProfile_def straddles_def)

subsection \<open>Call wall and put wall\<close>

text \<open>
  After the loop over a non-empty list the wall is the strike of an element whose
  exposure no element exceeds.
\<close>

lemma walls_fold_call:
  assumes "rows \<noteq> []"
  shows "\<exists>s\<in>set rows.
           fst (foldl wallStep (None, None, None, None) rows) = Some (strike s)
         \<and> fst (snd (foldl wallStep (None, None, None, None) rows)) = Some (callGex s)
         \<and> (\<forall>t\<in>set rows. callGex t \<le> callGex s)"
  using assms
proof (induction rows rule: rev_induct)
  case Nil
  then show ?case by simp
next
  case (snoc x xs)
  show ?case
  proof (cases "xs = []")
    case True
    then show ?thesis by (simp add: wallStep_def above_def)
  next
    case False
    from snoc.IH [OF False] obtain s where s: "s \<in> set xs"
      "fst (foldl wallStep (None, None, None, None) xs) = Some (strike s)"
      "fst (snd (foldl wallStep (None, None, None, None) xs)) = Some (callGex s)"
      "\<forall>t\<in>set xs. callGex t \<le> callGex s"
      by blast
    obtain cw m pw pm where st: "foldl wallStep (None, None, None, None) xs = (cw, m, pw, pm)"
      by (cases "foldl wallStep (None, None, None, None) xs") auto
    with s have cw: "cw = Some (strike s)" and m: "m = Some (callGex s)" by simp_all
    show ?thesis
    proof (cases "callGex x > callGex s")
      case True
      with s(4) have "\<forall>t\<in>set (xs @ [x]). callGex t \<le> callGex x" by fastforce
      moreover have "fst (foldl wallStep (None, None, None, None) (xs @ [x])) = Some (strike x)"
        "fst (snd (foldl wallStep (None, None, None, None) (xs @ [x]))) = Some (callGex x)"
        using True by (simp_all add: st cw m wallStep_def above_def)
      ultimately show ?thesis by (intro bexI [of _ x]) simp_all
    next
      case False
      with s(4) have "\<forall>t\<in>set (xs @ [x]). callGex t \<le> callGex s" by fastforce
      moreover have "fst (foldl wallStep (None, None, None, None) (xs @ [x])) = Some (strike s)"
        "fst (snd (foldl wallStep (None, None, None, None) (xs @ [x]))) = Some (callGex s)"
        using False by (simp_all add: st cw m wallStep_def above_def)
      ultimately show ?thesis using s(1) by (intro bexI [of _ s]) simp_all
    qed
  qed
qed

lemma walls_fold_put:
  assumes "rows \<noteq> []"
  shows "\<exists>s\<in>set rows.
           fst (snd (snd (foldl wallStep (None, None, None, None) rows))) = Some (strike s)
         \<and> snd (snd (snd (foldl wallStep (None, None, None, None) rows))) = Some \<bar>putGex s\<bar>
         \<and> (\<forall>t\<in>set rows. \<bar>putGex t\<bar> \<le> \<bar>putGex s\<bar>)"
  using assms
proof (induction rows rule: rev_induct)
  case Nil
  then show ?case by simp
next
  case (snoc x xs)
  show ?case
  proof (cases "xs = []")
    case True
    then show ?thesis by (simp add: wallStep_def above_def)
  next
    case False
    from snoc.IH [OF False] obtain s where s: "s \<in> set xs"
      "fst (snd (snd (foldl wallStep (None, None, None, None) xs))) = Some (strike s)"
      "snd (snd (snd (foldl wallStep (None, None, None, None) xs))) = Some \<bar>putGex s\<bar>"
      "\<forall>t\<in>set xs. \<bar>putGex t\<bar> \<le> \<bar>putGex s\<bar>"
      by blast
    obtain cw m pw pm where st: "foldl wallStep (None, None, None, None) xs = (cw, m, pw, pm)"
      by (cases "foldl wallStep (None, None, None, None) xs") auto
    with s have pw: "pw = Some (strike s)" and pm: "pm = Some \<bar>putGex s\<bar>" by simp_all
    show ?thesis
    proof (cases "\<bar>putGex x\<bar> > \<bar>putGex s\<bar>")
      case True
      with s(4) have "\<forall>t\<in>set (xs @ [x]). \<bar>putGex t\<bar> \<le> \<bar>putGex x\<bar>" by fastforce
      moreover have
        "fst (snd (snd (foldl wallStep (None, None, None, None) (xs @ [x])))) = Some (strike x)"
        "snd (snd (snd (foldl wallStep (None, None, None, None) (xs @ [x])))) = Some \<bar>putGex x\<bar>"
        using True by (simp_all add: st pw pm wallStep_def above_def)
      ultimately show ?thesis by (intro bexI [of _ x]) simp_all
    next
      case False
      with s(4) have "\<forall>t\<in>set (xs @ [x]). \<bar>putGex t\<bar> \<le> \<bar>putGex s\<bar>" by fastforce
      moreover have
        "fst (snd (snd (foldl wallStep (None, None, None, None) (xs @ [x])))) = Some (strike s)"
        "snd (snd (snd (foldl wallStep (None, None, None, None) (xs @ [x])))) = Some \<bar>putGex s\<bar>"
        using False by (simp_all add: st pw pm wallStep_def above_def)
      ultimately show ?thesis using s(1) by (intro bexI [of _ s]) simp_all
    qed
  qed
qed

lemma inRange_iff:
  "s \<in> set (inRange spotPrice rows) \<longleftrightarrow>
     s \<in> set rows \<and> rangeMin spotPrice \<le> strike s \<and> strike s \<le> rangeMax spotPrice"
  by (auto simp: inRange_def)

lemma walls_empty:
  "inRange spotPrice rows = [] \<Longrightarrow> walls spotPrice rows = (None, None, None, None)"
  by (simp add: walls_def)

text \<open>
  At spot 45 a lone strike 63 is outside the band, and both walls are null.
\<close>

lemma band_edge_walls: "strike s = 63 \<Longrightarrow> walls 45 [s] = (None, None, None, None)"
  using band_edge_45(2) by (simp add: walls_def inRange_def)

text \<open>
  Claim C2, as amended.  When calculateGEX returns a profile, the in-range strikes are
  those between rangeMin and rangeMax, the doubles that the code computes as
  spotPrice * 0.60 and spotPrice * 1.40 (within |spot| / 2^53 of 0.6 times the spot and
  within 3 * |spot| / 2^53 of 1.4 times the spot).  If there is none, both walls are
  null.  Otherwise the call wall is an in-range strike whose call-side exposure callGex is
  greater than or equal to the callGex of every in-range strike, and the put wall is an
  in-range strike whose put-side exposure has an absolute value greater than or equal to
  that of every in-range strike.
\<close>

theorem walls_are_extremes:
  assumes "calculateGEX chain spotPrice = Inr (Some p)"
  shows "rangeMin spotPrice = fl (spotPrice * fl 0.60)
    \<and> rangeMax spotPrice = fl (spotPrice * fl 1.40)
    \<and> \<bar>rangeMin spotPrice - spotPrice * 0.60\<bar> \<le> \<bar>spotPrice\<bar> / 9007199254740992
    \<and> \<bar>rangeMax spotPrice - spotPrice * 1.40\<bar> \<le> 3 * \<bar>spotPrice\<bar> / 9007199254740992
    \<and> set (inRange spotPrice (strikes p))
           = {s \<in> set (strikes p). rangeMin spotPrice \<le> strike s \<and> strike s \<le> rangeMax spotPrice}
    \<and> (inRange spotPrice (strikes p) = [] \<longrightarrow> callWall p = None \<and> putWall p = None)
    \<and> (inRange spotPrice (strikes p) \<noteq> [] \<longrightarrow>
          (\<exists>s\<in>set (inRange spotPrice (strikes p)).
              callWall p = Some (strike s)
            \<and> (\<forall>t\<in>set (inRange spotPrice (strikes p)). callGex t \<le> callGex s))
        \<and> (\<exists>s\<in>set (inRange spotPrice (strikes p)).
              putWall p = Some (strike s)
            \<and> (\<forall>t\<in>set (inRange spotPrice (strikes p)). \<bar>putGex t\<bar> \<le> \<bar>putGex s\<bar>)))"
proof -
  from assms obtain byStrike dates where
    b: "buildProfile spotPrice byStrike dates = Some p"
    by (rule calculateGEX_SomeD)
  note d = buildProfile_SomeD [OF b]
  have edges: "rangeMin spotPrice = fl (spotPrice * fl 0.60)
      \<and> rangeMax spotPrice = fl (spotPrice * fl 1.40)"
    by (simp only: rangeMin_def rangeMax_def)
  have band: "set (inRange spotPrice (strikes p))
           = {s \<in> set (strikes p). rangeMin spotPrice \<le> strike s \<and> strike s \<le> rangeMax spotPrice}"
    by (auto simp: inRange_def)
  have none: "callWall p = None \<and> putWall p = None" if "inRange spotPrice (strikes p) = []"
    using that by (simp add: d(6,7) walls_empty)
  have some: "(\<exists>s\<in>set (inRange spotPrice (strikes p)).
              callWall p = Some (strike s)
            \<and> (\<forall>t\<in>set (inRange spotPrice (strikes p)). callGex t \<le> callGex s))
        \<and> (\<exists>s\<in>set (inRange spotPrice (strikes p)).
              putWall p = Some (strike s)
            \<and> (\<forall>t\<in>set (inRange spotPrice (strikes p)). \<bar>putGex t\<bar> \<le> \<bar>putGex s\<bar>))"
    if ne: "inRange spotPrice (strikes p) \<noteq> []"
  proof
    from walls_fold_call [OF ne]
    show "\<exists>s\<in>set (inRange spotPrice (strikes p)).
              callWall p = Some (strike s)
            \<and> (\<forall>t\<in>set (inRange spotPrice (strikes p)). callGex t \<le> callGex s)"
      unfolding d(6) walls_def by blast
    from walls_fold_put [OF ne]
    show "\<exists>s\<in>set (inRange spotPrice (strikes p)).
              putWall p = Some (strike s)
            \<and> (\<forall>t\<in>set (inRange spotPrice (strikes p)). \<bar>putGex t\<bar> \<le> \<bar>putGex s\<bar>)"
      unfolding d(7) walls_def by blast
  qed
  from edges rangeMin_close [of spotPrice] rangeMax_close [of spotPrice] band none some
  show ?thesis by blast
qed

theorem walls_are_extremes_witness:
  "calculateGEX wallChain 100 = Inr (Some wallProfile)
   \<and> rangeMin 100 = 60 \<and> rangeMax 100 = 140
   \<and> inRange 100 (strikes wallProfile) = strikes wallProfile
   \<and> callWall wallProfile = Some 100
   \<and> (\<exists>s\<in>set (strikes wallProfile). callWall wallProfile = Some (strike s)
         \<and> callGex (strikes wallProfile ! 1) \<le> callGex s)
   \<and> (\<exists>s\<in>set (strikes wallProfile). putWall wallProfile = Some (strike s)
         \<and> \<bar>putGex (strikes wallProfile ! 1)\<bar> \<le> \<bar>putGex s\<bar>)"
proof -
  have r: "inRange 100 (strikes wallProfile) = strikes wallProfile"
    by (simp add: wallProfile_def inRange_def band_100)
  have ne: "inRange 100 (strikes wallProfile) \<noteq> []"
    by (simp add: r) (simp add: wallProfile_def)
  have m: "strikes wallProfile ! 1 \<in> set (strikes wallProfile)"
    by (simp add: wallProfile_def)
  have c: "callWall wallProfile = Some 100" by (simp add: wallProfile_def)
  from walls_are_extremes [OF wallChain_eval] ne
  have "(\<exists>s\<in>set (inRange 100 (strikes wallProfile)).
              callWall wallProfile = Some (strike s)
            \<and> (\<forall>t\<in>set (inRange 100 (strikes wallProfile)). callGex t \<le> callGex s))
        \<and> (\<exists>s\<in>set (inRange 100 (strikes wallProfile)).
              putWall wallProfile = Some (strike s)
            \<and> (\<forall>t\<in>set (inRange 100 (strikes wallProfile)). \<bar>putGex t\<bar> \<le> \<bar>putGex s\<bar>))"
    by blast
  then have "(\<exists>s\<in>set (strikes wallProfile). callWall wallProfile = Some (strike s)
         \<and> callGex (strikes wallProfile ! 1) \<le> callGex s)
   \<and> (\<exists>s\<in>set (strikes wallProfile). putWall wallProfile = Some (strike s)
         \<and> \<bar>putGex (strikes wallProfile ! 1)\<bar> \<le> \<bar>putGex s\<bar>)"
    unfolding r using m by blast
  with wallChain_eval r c band_100 show ?thesis by blast
qed

text \<open>
  At spot 100 the strikes 100 and 101 are in range with net exposures -10 and 5, and the
  call wall is 100: its net exposure is not the largest.
\<close>

theorem call_wall_net_counterexample:
  "observe (map strike \<circ> inRange 100 \<circ> strikes) (calculateGEX wallChain 100) = Some [100, 101]
   \<and> observe (map netGex \<circ> inRange 100 \<circ> strikes) (calculateGEX wallChain 100) = Some [- 10, 5]
   \<and> observe callWall (calculateGEX wallChain 100) = Some (Some 100)
   \<and> (- 10 :: real) < 5"
  by (simp add: wallChain_eval observe_def wallProfile_def inRange_def band_100)

subsection \<open>ATM IV\<close>










subsection \<open>The IV at the walls\<close>

lemma find_strike:
  "distinct (map strike rows) \<Longrightarrow> s \<in> set rows \<Longrightarrow>
   find (\<lambda>r. strike r = strike s) rows = Some s"
proof (induction rows)
  case Nil
  then show ?case by simp
next
  case (Cons r rows)
  then show ?case by (cases "r = s") (auto simp: image_iff)
qed

lemma callWallIVof_at:
  assumes "distinct (map strike rows)" "s \<in> set rows" "strike s \<noteq> 0"
  shows "callWallIVof (Some (strike s)) rows
           = (case callIV s of Some v \<Rightarrow> Some v | None \<Rightarrow> putIV s)"
  using assms by (simp add: callWallIVof_def find_strike)

lemma putWallIVof_at:
  assumes "distinct (map strike rows)" "s \<in> set rows" "strike s \<noteq> 0"
  shows "putWallIVof (Some (strike s)) rows
           = (case putIV s of Some v \<Rightarrow> Some v | None \<Rightarrow> callIV s)"
  using assms by (simp add: putWallIVof_def find_strike)

lemma inRange_nonzero:
  assumes "s \<in> set (inRange spotPrice rows)" "spotPrice \<noteq> 0"
  shows "strike s \<noteq> 0"
proof
  assume z: "strike s = 0"
  from assms(1) have "rangeMin spotPrice \<le> strike s" "strike s \<le> rangeMax spotPrice"
    by (simp_all add: inRange_def)
  with z have b: "rangeMin spotPrice \<le> 0" "0 \<le> rangeMax spotPrice" by simp_all
  from assms(2) consider "0 < spotPrice" | "spotPrice < 0" by linarith
  then show False
  proof cases
    case 1
    from rangeMin_pos [OF 1] b(1) show False by simp
  next
    case 2
    from rangeMax_neg [OF 2] b(2) show False by simp
  qed
qed

text \<open>
  What the code reports for every profile.  callWallIV is null when the call wall is null
  or is the strike 0.  When the call wall is a strike other than 0, there is a record of
  that strike, and callWallIV is that record's call-side IV, or its put-side IV when the
  call-side IV is absent (null when both are).  putWallIV is the same with the sides
  exchanged.  A wall is never the strike 0 when the spot is not 0.
\<close>

theorem wall_iv:
  assumes "calculateGEX chain spotPrice = Inr (Some p)"
  shows "(callWall p = None \<or> callWall p = Some 0 \<longrightarrow> callWallIV p = None)
    \<and> (putWall p = None \<or> putWall p = Some 0 \<longrightarrow> putWallIV p = None)
    \<and> (\<forall>k. callWall p = Some k \<and> k \<noteq> 0 \<longrightarrow>
          (\<exists>s\<in>set (strikes p). strike s = k)
        \<and> (\<forall>s\<in>set (strikes p). strike s = k \<longrightarrow>
              callWallIV p = (case callIV s of Some v \<Rightarrow> Some v | None \<Rightarrow> putIV s)))
    \<and> (\<forall>k. putWall p = Some k \<and> k \<noteq> 0 \<longrightarrow>
          (\<exists>s\<in>set (strikes p). strike s = k)
        \<and> (\<forall>s\<in>set (strikes p). strike s = k \<longrightarrow>
              putWallIV p = (case putIV s of Some v \<Rightarrow> Some v | None \<Rightarrow> callIV s)))
    \<and> (spotPrice \<noteq> 0 \<longrightarrow> callWall p \<noteq> Some 0 \<and> putWall p \<noteq> Some 0)"
proof -
  from assms obtain byStrike dates where
    b: "buildProfile spotPrice byStrike dates = Some p"
    by (rule calculateGEX_SomeD)
  note d = buildProfile_SomeD [OF b]
  note dist = strikes_distinct(1) [OF assms]
  have w: "(rows = [] \<longrightarrow> fst (foldl wallStep (None, None, None, None) rows) = None
              \<and> fst (snd (snd (foldl wallStep (None, None, None, None) rows))) = None)
         \<and> (rows \<noteq> [] \<longrightarrow>
              (\<exists>s\<in>set rows. fst (foldl wallStep (None, None, None, None) rows) = Some (strike s))
            \<and> (\<exists>s\<in>set rows.
                  fst (snd (snd (foldl wallStep (None, None, None, None) rows))) = Some (strike s)))"
    for rows
    using walls_fold_call [of rows] walls_fold_put [of rows] by auto
  have cwD: "\<exists>s\<in>set (inRange spotPrice (strikes p)). strike s = k" if "callWall p = Some k" for k
    using that w [of "inRange spotPrice (strikes p)"] unfolding d(6) walls_def by auto
  have pwD: "\<exists>s\<in>set (inRange spotPrice (strikes p)). strike s = k" if "putWall p = Some k" for k
    using that w [of "inRange spotPrice (strikes p)"] unfolding d(7) walls_def by auto
  have sub: "set (inRange spotPrice (strikes p)) \<subseteq> set (strikes p)"
    by (auto simp: inRange_def)
  have c0: "callWallIV p = None" if "callWall p = None \<or> callWall p = Some 0"
    using that by (auto simp: d(9) callWallIVof_def)
  have p0: "putWallIV p = None" if "putWall p = None \<or> putWall p = Some 0"
    using that by (auto simp: d(10) putWallIVof_def)
  have c1: "(\<exists>s\<in>set (strikes p). strike s = k)
        \<and> (\<forall>s\<in>set (strikes p). strike s = k \<longrightarrow>
              callWallIV p = (case callIV s of Some v \<Rightarrow> Some v | None \<Rightarrow> putIV s))"
    if "callWall p = Some k \<and> k \<noteq> 0" for k
  proof
    from cwD that sub show "\<exists>s\<in>set (strikes p). strike s = k" by blast
    show "\<forall>s\<in>set (strikes p). strike s = k \<longrightarrow>
              callWallIV p = (case callIV s of Some v \<Rightarrow> Some v | None \<Rightarrow> putIV s)"
    proof (intro ballI impI)
      fix s assume "s \<in> set (strikes p)" "strike s = k"
      with that callWallIVof_at [OF dist, of s]
      show "callWallIV p = (case callIV s of Some v \<Rightarrow> Some v | None \<Rightarrow> putIV s)"
        by (simp add: d(9))
    qed
  qed
  have p1: "(\<exists>s\<in>set (strikes p). strike s = k)
        \<and> (\<forall>s\<in>set (strikes p). strike s = k \<longrightarrow>
              putWallIV p = (case putIV s of Some v \<Rightarrow> Some v | None \<Rightarrow> callIV s))"
    if "putWall p = Some k \<and> k \<noteq> 0" for k
  proof
    from pwD that sub show "\<exists>s\<in>set (strikes p). strike s = k" by blast
    show "\<forall>s\<in>set (strikes p). strike s = k \<longrightarrow>
              putWallIV p = (case putIV s of Some v \<Rightarrow> Some v | None \<Rightarrow> callIV s)"
    proof (intro ballI impI)
      fix s assume "s \<in> set (strikes p)" "strike s = k"
      with that putWallIVof_at [OF dist, of s]
      show "putWallIV p = (case putIV s of Some v \<Rightarrow> Some v | None \<Rightarrow> callIV s)"
        by (simp add: d(10))
    qed
  qed
  have nz: "callWall p \<noteq> Some 0 \<and> putWall p \<noteq> Some 0" if "spotPrice \<noteq> 0"
    using cwD [of 0] pwD [of 0] inRange_nonzero [OF _ that] by blast
  from c0 p0 c1 p1 nz show ?thesis by blast
qed

text \<open>The sample chain at spot 10: the walls 10 and 9 and their IVs.\<close>

theorem wall_iv_sample:
  "calculateGEX sampleChain 10 = Inr (Some sampleProfile)
   \<and> callWall sampleProfile = Some 10 \<and> putWall sampleProfile = Some 9
   \<and> sampleRow10 \<in> set (strikes sampleProfile) \<and> strike sampleRow10 = 10
   \<and> sampleRow9 \<in> set (strikes sampleProfile) \<and> strike sampleRow9 = 9
   \<and> callWallIV sampleProfile
       = (case callIV sampleRow10 of Some v \<Rightarrow> Some v | None \<Rightarrow> putIV sampleRow10)
   \<and> putWallIV sampleProfile
       = (case putIV sampleRow9 of Some v \<Rightarrow> Some v | None \<Rightarrow> callIV sampleRow9)"
proof -
  have f: "callWall sampleProfile = Some 10 \<and> (10::real) \<noteq> 0"
    "putWall sampleProfile = Some 9 \<and> (9::real) \<noteq> 0"
    "sampleRow10 \<in> set (strikes sampleProfile)" "strike sampleRow10 = 10"
    "sampleRow9 \<in> set (strikes sampleProfile)" "strike sampleRow9 = 9"
    by (simp_all add: sampleProfile_def sampleRow10_def sampleRow9_def)
  note t = wall_iv [OF sampleChain_eval]
  from t f(1,3,4) have
    "callWallIV sampleProfile
       = (case callIV sampleRow10 of Some v \<Rightarrow> Some v | None \<Rightarrow> putIV sampleRow10)"
    by blast
  moreover from t f(2,5,6) have
    "putWallIV sampleProfile
       = (case putIV sampleRow9 of Some v \<Rightarrow> Some v | None \<Rightarrow> callIV sampleRow9)"
    by blast
  ultimately show ?thesis using sampleChain_eval f by blast
qed

text \<open>
  Claim C10 at the input where the code departs from it.  The chain holds one call
  contract at the strike key 0 with volatility 30, and the spot is 0.  The profile has
  the one strike 0 with the call-side IV 30 and no put-side IV, and the call wall is the
  strike 0, not null; the claim makes callWallIV the call-side IV 30 there.  The test
  \<^verbatim>\<open>if (callWall)\<close> takes the strike 0 for null, and callWallIV is null.
\<close>

theorem zero_strike_wall_iv:
  "observe callWall (calculateGEX zeroChain 0) = Some (Some 0)
   \<and> observe (map strike \<circ> strikes) (calculateGEX zeroChain 0) = Some [0]
   \<and> observe (map callIV \<circ> strikes) (calculateGEX zeroChain 0) = Some [Some 30]
   \<and> observe (map putIV \<circ> strikes) (calculateGEX zeroChain 0) = Some [None]
   \<and> observe callWallIV (calculateGEX zeroChain 0) = Some None
   \<and> observe callWallIV (calculateGEX zeroChain 0) \<noteq> Some (Some 30)"
  by (simp add: zeroChain_eval observe_def zeroProfile_def)

subsection \<open>The volume to open-interest ratio\<close>

lemma mkRow_ratio:
  "volOIRatio (mkRow byStrike k) =
     (if totalOI (mkRow byStrike k) > 0
      then min (real (totalVol (mkRow byStrike k)) / real (totalOI (mkRow byStrike k))) 10
      else 0)"
  by (simp add: mkRow_def Let_def)

text \<open>
  Claim C9.  In every strike record of a profile that calculateGEX returns, volOIRatio
  lies between 0 and 10; it is 0 when totalOI is 0, and otherwise it is
  totalVol / totalOI cut off at 10.
\<close>

theorem volOIRatio_clamped:
  assumes "calculateGEX chain spotPrice = Inr (Some p)" and "s \<in> set (strikes p)"
  shows "0 \<le> volOIRatio s \<and> volOIRatio s \<le> 10
    \<and> (totalOI s = 0 \<longrightarrow> volOIRatio s = 0)
    \<and> (totalOI s > 0 \<longrightarrow> volOIRatio s = min (real (totalVol s) / real (totalOI s)) 10)
    \<and> totalOI s = callOI s + putOI s \<and> totalVol s = callVol s + putVol s"
proof -
  from assms(1) obtain byStrike dates where
    b: "buildProfile spotPrice byStrike dates = Some p"
    by (rule calculateGEX_SomeD)
  from buildProfile_SomeD(2) [OF b] assms(2)
  obtain k where s: "s = mkRow byStrike k" by auto
  have "volOIRatio s = (if totalOI s > 0 then min (real (totalVol s) / real (totalOI s)) 10 else 0)"
    unfolding s by (rule mkRow_ratio)
  moreover have "totalOI s = callOI s + putOI s \<and> totalVol s = callVol s + putVol s"
    unfolding s by (simp add: mkRow_def Let_def)
  ultimately show ?thesis by (auto simp: min_def)
qed

theorem volOIRatio_clamped_witness:
  "calculateGEX sampleChain 10 = Inr (Some sampleProfile)
   \<and> sampleRow9 \<in> set (strikes sampleProfile)
   \<and> totalOI sampleRow9 > 0
   \<and> real (totalVol sampleRow9) / real (totalOI sampleRow9) = 25
   \<and> volOIRatio sampleRow9 = 10
   \<and> 0 \<le> volOIRatio sampleRow9 \<and> volOIRatio sampleRow9 \<le> 10"
proof -
  have m: "sampleRow9 \<in> set (strikes sampleProfile)" by (simp add: sampleProfile_def)
  have v: "totalOI sampleRow9 > 0 \<and> real (totalVol sampleRow9) / real (totalOI sampleRow9) = 25"
    by (simp add: sampleRow9_def)
  from volOIRatio_clamped [OF sampleChain_eval m] v
  have "volOIRatio sampleRow9 = 10 \<and> 0 \<le> volOIRatio sampleRow9 \<and> volOIRatio sampleRow9 \<le> 10"
    by simp
  with sampleChain_eval m v show ?thesis by blast
qed

subsection \<open>The IV history\<close>

lemma sliceLast96_length: "length (sliceLast96 xs) \<le> 96"
  by (simp add: sliceLast96_def)

lemma sliceLast96_suffix: "suffix (sliceLast96 xs) xs"
  by (simp add: sliceLast96_def suffix_drop)

lemma sliceLast96_last: "xs \<noteq> [] \<Longrightarrow> last (sliceLast96 xs) = last xs"
  by (simp add: sliceLast96_def)

text \<open>
  Claim C7.  For every prior state of the store, storeIVHistory returns and stores under
  the day's key a log of at most 96 records.  That log is a suffix of the prior log
  followed by the new record, so the records dropped are the oldest ones, the records
  kept are in their old order, and the new record is last.
\<close>

theorem iv_history_capped:
  "length (fst (storeIVHistory kv symbol day label ms a cw pw)) \<le> 96
   \<and> snd (storeIVHistory kv symbol day label ms a cw pw) (ivKey symbol day)
       = Some (fst (storeIVHistory kv symbol day label ms a cw pw))
   \<and> fst (storeIVHistory kv symbol day label ms a cw pw)
       = sliceLast96
           ((case kv (ivKey symbol day) of None \<Rightarrow> [] | Some h \<Rightarrow> h)
            @ [\<lparr>ivTime = label, ivTimestamp = ms, ivAtmIV = a, ivCallWallIV = cw,
                 ivPutWallIV = pw\<rparr>])
   \<and> suffix (fst (storeIVHistory kv symbol day label ms a cw pw))
       ((case kv (ivKey symbol day) of None \<Rightarrow> [] | Some h \<Rightarrow> h)
        @ [\<lparr>ivTime = label, ivTimestamp = ms, ivAtmIV = a, ivCallWallIV = cw,
             ivPutWallIV = pw\<rparr>])
   \<and> last (fst (storeIVHistory kv symbol day label ms a cw pw))
       = \<lparr>ivTime = label, ivTimestamp = ms, ivAtmIV = a, ivCallWallIV = cw,
          ivPutWallIV = pw\<rparr>"
proof -
  define r where "r = \<lparr>ivTime = label, ivTimestamp = ms, ivAtmIV = a, ivCallWallIV = cw,
    ivPutWallIV = pw\<rparr>"
  define pushed where "pushed = (case kv (ivKey symbol day) of None \<Rightarrow> [] | Some h \<Rightarrow> h) @ [r]"
  have run: "storeIVHistory kv symbol day label ms a cw pw
      = (sliceLast96 pushed, kv(ivKey symbol day \<mapsto> sliceLast96 pushed))"
    by (simp add: storeIVHistory_def Let_def pushed_def r_def)
  have ne: "pushed \<noteq> []" by (simp add: pushed_def)
  have "length (sliceLast96 pushed) \<le> 96" by (rule sliceLast96_length)
  moreover have "suffix (sliceLast96 pushed) pushed" by (rule sliceLast96_suffix)
  moreover have "last (sliceLast96 pushed) = r"
    using sliceLast96_last [OF ne] by (simp add: pushed_def)
  ultimately show ?thesis
    unfolding run fst_conv snd_conv pushed_def [symmetric] r_def [symmetric]
      pushed_def [symmetric]
    by (simp del: suffix_snoc)
qed

theorem iv_history_capped_witness:
  "length (fst (storeIVHistory fullStore ''SPY'' ''2026-02-20'' ''10:00 ET'' 2
       (Some 21) None None)) \<le> 96
   \<and> fst (storeIVHistory fullStore ''SPY'' ''2026-02-20'' ''10:00 ET'' 2 (Some 21) None None)
       = replicate 95 oldRecord
         @ [\<lparr>ivTime = ''10:00 ET'', ivTimestamp = 2, ivAtmIV = Some 21,
              ivCallWallIV = None, ivPutWallIV = None\<rparr>]"
  using iv_history_capped [of fullStore "''SPY''" "''2026-02-20''" "''10:00 ET''" 2
      "Some 21" None None]
  by (simp add: fullStore_def sliceLast96_def)

subsection \<open>The guards of the /api/gex route\<close>

lemma quoteLast_zero_iff:
  "quoteLast q = 0 \<longleftrightarrow>
     (lastPrice q = None \<or> lastPrice q = Some 0)
   \<and> (mark q = None \<or> mark q = Some 0)
   \<and> (closePrice q = None \<or> closePrice q = Some 0)"
  by (auto simp: quoteLast_def orElse_def split: option.splits)

text \<open>
  Claim C8, as amended.  A request with no symbol, or an empty one, is answered at once
  with the error "symbol required" (status 400) and no call is made.  When the quote's
  price is absent or 0, the route answers with an error and calculateGEX is not called.
  calculateGEX is called exactly when the symbol is present and does not start with a
  slash, the token, the quote and the chain are obtained, and the quote's price is not 0:
  a negative price is not rejected.
\<close>

theorem gex_route_guards:
  "(symbolParam req = None \<or> symbolParam req = Some [] \<longrightarrow>
       gexRoute req w = (ErrRes SymbolRequired 400, [], kvState w))
   \<and> ((\<exists>q. quoteOutcome w = Inr q \<and> quoteLast q = 0) \<longrightarrow>
       (\<exists>m c. fst (gexRoute req w) = ErrRes m c)
       \<and> CalculateGEX \<notin> set (fst (snd (gexRoute req w))))
   \<and> (CalculateGEX \<in> set (fst (snd (gexRoute req w))) \<longleftrightarrow>
       (\<exists>ch rest token q chain.
          map_option toUpperCase (symbolParam req) = Some (ch # rest) \<and> ch \<noteq> CHR ''/''
          \<and> tokenOutcome w = Inr token \<and> quoteOutcome w = Inr q \<and> quoteLast q \<noteq> 0
          \<and> chainOutcome w = Inr chain))"
  by (auto simp: gexRoute_def toUpperCase_def split: option.splits list.splits sum.splits)

theorem gex_route_guards_witness:
  "gexRoute \<lparr>symbolParam = None\<rparr> zeroWorld = (ErrRes SymbolRequired 400, [], kvState zeroWorld)
   \<and> quoteLast \<lparr>lastPrice = Some 0, mark = None, closePrice = None\<rparr> = 0
   \<and> fst (gexRoute \<lparr>symbolParam = Some ''spy''\<rparr> zeroWorld) = ErrRes NoSpotPrice 500
   \<and> CalculateGEX \<notin> set (fst (snd (gexRoute \<lparr>symbolParam = Some ''spy''\<rparr> zeroWorld)))"
proof -
  have q: "quoteLast \<lparr>lastPrice = Some 0, mark = None, closePrice = None\<rparr> = 0"
    by (simp add: quoteLast_def orElse_def)
  have r: "fst (gexRoute \<lparr>symbolParam = Some ''spy''\<rparr> zeroWorld) = ErrRes NoSpotPrice 500"
    by (simp add: gexRoute_def toUpperCase_spy zeroWorld_def q)
  have "\<exists>q. quoteOutcome zeroWorld = Inr q \<and> quoteLast q = 0"
    using q by (simp add: zeroWorld_def)
  with gex_route_guards [of "\<lparr>symbolParam = Some ''spy''\<rparr>" zeroWorld]
  have a: "CalculateGEX \<notin> set (fst (snd (gexRoute \<lparr>symbolParam = Some ''spy''\<rparr> zeroWorld)))"
    by blast
  from gex_route_guards [of "\<lparr>symbolParam = None\<rparr>" zeroWorld]
  have b: "gexRoute \<lparr>symbolParam = None\<rparr> zeroWorld
      = (ErrRes SymbolRequired 400, [], kvState zeroWorld)"
    by simp
  from a b q r show ?thesis by blast
qed

text \<open>With the quote -5 the route calls calculateGEX and answers with a profile.\<close>

theorem negative_spot_counterexample:
  "quoteLast \<lparr>lastPrice = Some (- 5), mark = None, closePrice = None\<rparr> = - 5
   \<and> fst (gexRoute \<lparr>symbolParam = Some ''spy''\<rparr> negWorld) = JsonRes ''SPY'' (- 5) negSpotProfile
   \<and> fst (snd (gexRoute \<lparr>symbolParam = Some ''spy''\<rparr> negWorld))
       = [GetAccessToken, FetchQuote, FetchOptionChain, CalculateGEX, StoreIVHistory]"
proof -
  have q: "quoteLast \<lparr>lastPrice = Some (- 5), mark = None, closePrice = None\<rparr> = - 5"
    by (simp add: quoteLast_def orElse_def)
  show ?thesis
    by (simp add: gexRoute_def toUpperCase_spy negWorld_def q negSpot_eval)
qed

end
